theory Spec2Isabelle
  imports Main "HOL-Library.Word" "HOL-Library.AList"
begin

section \<open>Slash-separated paths: Go's \<open>path.Clean\<close> and \<open>path.Join\<close>\<close>

text \<open>
  The program builds every file name with \<open>path.Join\<close> (and \<open>filepath.Join\<close>, which is
  the same function on a Unix host). \<open>path.Join\<close> drops empty elements, joins the rest
  with a slash and returns \<open>path.Clean\<close> of the result; \<open>path.Clean\<close> removes empty and
  \<open>.\<close> elements, resolves \<open>..\<close> lexically, and returns \<open>.\<close> for an empty result.
\<close>

fun splitSlash :: "string \<Rightarrow> string list" where
  "splitSlash [] = [] # []"
| "splitSlash (c # cs) =
     (if c = CHR ''/'' then [] # splitSlash cs
      else (case splitSlash cs of [] \<Rightarrow> [c] # [] | w # ws \<Rightarrow> (c # w) # ws))"

fun joinSlash :: "string list \<Rightarrow> string" where
  "joinSlash [] = []"
| "joinSlash [x] = x"
| "joinSlash (x # y # zs) = x @ CHR ''/'' # joinSlash (y # zs)"

definition cleanStep :: "bool \<Rightarrow> string list \<Rightarrow> string \<Rightarrow> string list" where
  \<comment> \<open>the stack holds the elements kept so far, newest first\<close>
  "cleanStep rooted st c =
     (if c = [] \<or> c = ''.'' then st
      else if c = ''..'' then
        (case st of
           [] \<Rightarrow> if rooted then [] else [''..'']
         | t # ts \<Rightarrow> if t = ''..'' then ''..'' # st else ts)
      else c # st)"

definition path_Clean :: "string \<Rightarrow> string" where
  "path_Clean p =
     (let rooted = (p \<noteq> [] \<and> hd p = CHR ''/'');
          body = joinSlash (rev (foldl (cleanStep rooted) [] (splitSlash p)))
      in if rooted then CHR ''/'' # body
         else if body = [] then ''.'' else body)"

definition path_Join :: "string list \<Rightarrow> string" where
  "path_Join elems =
     (let ne = filter (\<lambda>e. e \<noteq> []) elems
      in if ne = [] then [] else path_Clean (joinSlash ne))"

section \<open>The file system and the package state\<close>

text \<open>
  Files hold bytes; a directory is a node of its own. The tree is kept flat: an
  association list from the cleaned path name to the node there. Every system call
  resolves its argument lexically (\<open>path_Clean\<close>; no symbolic links). \<open>denied\<close>
  lists the names on which every system call fails with \<open>EACCES\<close>; \<open>rand\<close> is the
  supply that \<open>os.MkdirTemp\<close> draws its random suffixes from; \<open>oplog\<close> records every
  mutating system call issued, in order, whether it succeeds or not. \<open>pouchDirLock\<close>
  is the package-level mutex of the source: \<open>True\<close> while some goroutine holds it.
\<close>

datatype node = NDir | NFile string

datatype errno = ENOENT | EACCES | EEXIST | EISDIR | ENOTDIR | ENOTEMPTY | EINVAL

datatype event =
    MkdirEv string
  | WriteFileEv string string
  | AtomicWriteEv string string
  | RenameEv string string

record world =
  nodes :: "(string \<times> node) list"
  denied :: "string list"
  rand :: "nat list"
  oplog :: "event list"
  pouchDirLock :: bool

text \<open>
  The errors of the program. The source wraps most of them in a message
  (\<open>fmt.Errorf\<close>, \<open>errors.Wrapf\<close>); the model keeps the cause and drops the text.
\<close>

datatype error =
    SysErr errno
  | ParseDigestErr
  | SyntaxErr
  | RangeErr
  | UnmarshalErr
  | MarshalErr
  | InvalidRefErr
  | SliceBoundsPanic

definition lookupNode :: "world \<Rightarrow> string \<Rightarrow> node option" where
  \<comment> \<open>the root and the working directory always exist\<close>
  "lookupNode w k = (if k = ''/'' \<or> k = ''.'' then Some NDir else map_of (nodes w) k)"

definition parentOf :: "string \<Rightarrow> string" where
  \<comment> \<open>the directory that holds the cleaned name \<open>k\<close>\<close>
  "parentOf k =
     (if CHR ''/'' \<notin> set k then ''.''
      else (let pre = rev (tl (dropWhile (\<lambda>c. c \<noteq> CHR ''/'') (rev k)))
            in if pre = [] then ''/'' else pre))"

definition os_Stat :: "world \<Rightarrow> string \<Rightarrow> errno + node" where
  "os_Stat w p =
     (let k = path_Clean p
      in if k \<in> set (denied w) then Inl EACCES
         else (case lookupNode w k of None \<Rightarrow> Inl ENOENT | Some n \<Rightarrow> Inr n))"

definition os_ReadFile :: "world \<Rightarrow> string \<Rightarrow> errno + string" where
  "os_ReadFile w p =
     (let k = path_Clean p
      in if k \<in> set (denied w) then Inl EACCES
         else (case lookupNode w k of
                 None \<Rightarrow> Inl ENOENT
               | Some NDir \<Rightarrow> Inl EISDIR
               | Some (NFile d) \<Rightarrow> Inr d))"

definition putFile :: "world \<Rightarrow> string \<Rightarrow> string \<Rightarrow> world \<times> errno option" where
  \<comment> \<open>create or replace the file \<open>k\<close> (a cleaned name) in an existing directory\<close>
  "putFile w k d =
     (if k \<in> set (denied w) then (w, Some EACCES)
      else (case lookupNode w (parentOf k) of
              None \<Rightarrow> (w, Some ENOENT)
            | Some (NFile x) \<Rightarrow> (w, Some ENOTDIR)
            | Some NDir \<Rightarrow>
                (case lookupNode w k of
                   Some NDir \<Rightarrow> (w, Some EISDIR)
                 | _ \<Rightarrow> (w\<lparr>nodes := AList.update k (NFile d) (nodes w)\<rparr>, None))))"

definition os_WriteFile :: "world \<Rightarrow> string \<Rightarrow> string \<Rightarrow> world \<times> errno option" where
  "os_WriteFile w p d =
     (let k = path_Clean p
      in putFile (w\<lparr>oplog := oplog w @ [WriteFileEv k d]\<rparr>) k d)"

definition AtomicWriteFile :: "world \<Rightarrow> string \<Rightarrow> string \<Rightarrow> world \<times> errno option" where
  \<comment> \<open>\<open>continuity.AtomicWriteFile\<close>: a temporary file beside the target, renamed over it;
      the target has the new bytes or is unchanged\<close>
  "AtomicWriteFile w p d =
     (let k = path_Clean p
      in putFile (w\<lparr>oplog := oplog w @ [AtomicWriteEv k d]\<rparr>) k d)"

definition os_Mkdir :: "world \<Rightarrow> string \<Rightarrow> world \<times> errno option" where
  "os_Mkdir w p =
     (let k = path_Clean p; w1 = w\<lparr>oplog := oplog w @ [MkdirEv k]\<rparr>
      in if k \<in> set (denied w) then (w1, Some EACCES)
         else if lookupNode w k \<noteq> None then (w1, Some EEXIST)
         else (case lookupNode w (parentOf k) of
                 None \<Rightarrow> (w1, Some ENOENT)
               | Some (NFile x) \<Rightarrow> (w1, Some ENOTDIR)
               | Some NDir \<Rightarrow> (w1\<lparr>nodes := AList.update k NDir (nodes w)\<rparr>, None)))"

text \<open>Decimal rendering of the random number (\<open>nextRandom\<close> of package \<open>os\<close>).\<close>

fun itoa :: "nat \<Rightarrow> string" where
  "itoa n = (if n < 10 then [''0123456789'' ! n]
             else itoa (n div 10) @ [''0123456789'' ! (n mod 10)])"

declare itoa.simps [simp del]

definition joinPath :: "string \<Rightarrow> string \<Rightarrow> string" where
  \<comment> \<open>\<open>joinPath\<close> of package \<open>os\<close>: no cleaning\<close>
  "joinPath dir name =
     (if dir \<noteq> [] \<and> last dir = CHR ''/'' then dir @ name else dir @ CHR ''/'' # name)"

fun mkdirTempLoop :: "world \<Rightarrow> string \<Rightarrow> nat list \<Rightarrow> world \<times> (errno + string)" where
  "mkdirTempLoop w prefix [] = (w, Inl EEXIST)"
| "mkdirTempLoop w prefix (r # rs) =
     (let name = prefix @ itoa r
      in case os_Mkdir (w\<lparr>rand := rs\<rparr>) name of
           (w', None) \<Rightarrow> (w', Inr name)
         | (w', Some e) \<Rightarrow>
             if e = EEXIST then mkdirTempLoop w' prefix rs else (w', Inl e))"

definition os_MkdirTemp :: "world \<Rightarrow> string \<Rightarrow> string \<Rightarrow> world \<times> (errno + string)" where
  \<comment> \<open>the pattern of the program has no \<open>*\<close>: the random number is appended; an empty
      \<open>dir\<close> stands for the default temporary directory\<close>
  "os_MkdirTemp w dir pattern =
     mkdirTempLoop w (joinPath (if dir = [] then ''/tmp'' else dir) pattern) (rand w)"

definition isUnder :: "string \<Rightarrow> string \<Rightarrow> bool" where
  \<comment> \<open>\<open>k\<close> names something inside the directory \<open>d\<close>\<close>
  "isUnder d k = (length d < length k \<and> take (length d) k = d \<and>
                  (d = ''/'' \<or> k ! length d = CHR ''/''))"

definition rekey :: "string \<Rightarrow> string \<Rightarrow> string \<times> node \<Rightarrow> string \<times> node" where
  "rekey ks kd e =
     (if fst e = ks then (kd, snd e)
      else if isUnder ks (fst e) then (kd @ drop (length ks) (fst e), snd e)
      else e)"

definition os_Rename :: "world \<Rightarrow> string \<Rightarrow> string \<Rightarrow> world \<times> errno option" where
  "os_Rename w src dst =
     (let ks = path_Clean src; kd = path_Clean dst;
          w1 = w\<lparr>oplog := oplog w @ [RenameEv ks kd]\<rparr>
      in if ks \<in> set (denied w) \<or> kd \<in> set (denied w) then (w1, Some EACCES)
         else (case map_of (nodes w) ks of
                 None \<Rightarrow> (w1, Some ENOENT)
               | Some n \<Rightarrow>
                   if ks = kd then (w1, None)
                   else if isUnder ks kd then (w1, Some EINVAL)
                   else (case lookupNode w (parentOf kd) of
                           None \<Rightarrow> (w1, Some ENOENT)
                         | Some (NFile x) \<Rightarrow> (w1, Some ENOTDIR)
                         | Some NDir \<Rightarrow>
                             (case (n, lookupNode w kd) of
                                (NDir, Some (NFile x)) \<Rightarrow> (w1, Some ENOTDIR)
                              | (NFile x, Some NDir) \<Rightarrow> (w1, Some EISDIR)
                              | _ \<Rightarrow>
                                  if list_ex (\<lambda>e. isUnder kd (fst e)) (nodes w)
                                  then (w1, Some ENOTEMPTY)
                                  else (w1\<lparr>nodes := map (rekey ks kd)
                                               (filter (\<lambda>e. fst e \<noteq> kd) (nodes w))\<rparr>, None)))))"

section \<open>The backing-store descriptor and the libraries the program calls\<close>

text \<open>
  The descriptor type \<open>types.OverlayBDBSConfig\<close> is declared in another module. Its
  fields here are the ones the program reads and writes, with the JSON shape the
  specification gives for it: \<open>repoBlobUrl\<close>, \<open>resultFile\<close>, \<open>recordTracePath\<close> and
  \<open>lowers\<close>, each lower with \<open>file\<close>, \<open>digest\<close>, \<open>size\<close> (an \<open>int64\<close>) and \<open>dir\<close>.
  An \<open>int64\<close> is its 64 bits; \<open>sint\<close> reads the number.
\<close>

record OverlayBDBSConfigLower =
  File :: string
  Digest :: string
  Size :: "64 word"
  Dir :: string

record OverlayBDBSConfig =
  RepoBlobURL :: string
  Lowers :: "OverlayBDBSConfigLower list"
  ResultFile :: string
  RecordTracePath :: string

text \<open>
  Three library functions are parameters of the model: \<open>json.Marshal\<close> and
  \<open>json.Unmarshal\<close> on the descriptor type, and the image-reference parser
  (\<open>reference.ParseNamed\<close>, giving the pair of \<open>reference.Domain\<close> and the
  \<open>reference.Path\<close> of the name without tag and digest, or nothing when it rejects
  the string).
\<close>

record deps =
  jsonMarshal :: "OverlayBDBSConfig \<Rightarrow> string option"
  jsonUnmarshal :: "string \<Rightarrow> OverlayBDBSConfig option"
  parseNamed :: "string \<Rightarrow> (string \<times> string) option"

section \<open>The program\<close>

definition zdfsMetaDir :: string where "zdfsMetaDir = ''zdfsmeta''"
definition iNewFormat :: string where "iNewFormat = ''.aaaaaaaaaaaaaaaa.lsmt''"
definition zdfsChecksumFile :: string where "zdfsChecksumFile = ''.checksum_file''"
definition zdfsOssurlFile :: string where "zdfsOssurlFile = ''.oss_url''"
definition zdfsOssDataSizeFile :: string where "zdfsOssDataSizeFile = ''.data_size''"
definition zdfsOssTypeFile :: string where "zdfsOssTypeFile = ''.type''"
definition zdfsTrace :: string where "zdfsTrace = ''.trace''"
definition overlaybdBaseLayer :: string where
  "overlaybdBaseLayer = ''/opt/overlaybd/baselayers/.commit''"

definition pathExists :: "world \<Rightarrow> string \<Rightarrow> bool \<times> error option" where
  "pathExists w p =
     (case os_Stat w p of
        Inr n \<Rightarrow> (True, None)
      | Inl e \<Rightarrow> if e = ENOENT then (False, None) else (False, Some (SysErr e)))"

fun hasAllFiles :: "world \<Rightarrow> string \<Rightarrow> string list \<Rightarrow> bool \<times> error option" where
  \<comment> \<open>the loop of \<open>hasOverlaybdBlobRef\<close>\<close>
  "hasAllFiles w dir [] = (True, None)"
| "hasAllFiles w dir (name # rest) =
     (case pathExists w (path_Join [dir, name]) of
        (b, Some e) \<Rightarrow> (False, Some e)
      | (b, None) \<Rightarrow> if \<not> b then (False, None) else hasAllFiles w dir rest)"

definition hasOverlaybdBlobRef :: "world \<Rightarrow> string \<Rightarrow> bool \<times> error option" where
  "hasOverlaybdBlobRef w dir =
     hasAllFiles w dir
       [iNewFormat, zdfsChecksumFile, zdfsOssurlFile, zdfsOssDataSizeFile, zdfsOssTypeFile]"

definition overlaybdConfPath :: "string \<Rightarrow> string" where
  "overlaybdConfPath dir = path_Join [dir, ''block'', ''config.v1.json'']"

definition overlaybdInitDebuglogPath :: "string \<Rightarrow> string" where
  "overlaybdInitDebuglogPath dir = path_Join [dir, zdfsMetaDir, ''init-debug.log'']"

definition isOverlaybdLayer :: "world \<Rightarrow> string \<Rightarrow> bool \<times> error option" where
  "isOverlaybdLayer w dir =
     (if fst (pathExists w (overlaybdConfPath dir)) then (True, None)
      else (case hasOverlaybdBlobRef w (path_Join [dir, ''fs'']) of
              (b, Some e) \<Rightarrow> (False, Some e)
            | (b, None) \<Rightarrow> (b, None)))"

definition strings_Trim :: "string \<Rightarrow> string \<Rightarrow> string" where
  "strings_Trim s cutset =
     rev (dropWhile (\<lambda>c. c \<in> set cutset) (rev (dropWhile (\<lambda>c. c \<in> set cutset) s)))"

definition getTrimStringFromFile :: "world \<Rightarrow> string \<Rightarrow> error + string" where
  "getTrimStringFromFile w filePath =
     (case os_ReadFile w filePath of
        Inl e \<Rightarrow> Inl (SysErr e)
      | Inr d \<Rightarrow> Inr (strings_Trim d [CHR '' '', CHR 0x0A]))"

definition loadBackingStoreConfig :: "deps \<Rightarrow> world \<Rightarrow> string \<Rightarrow> error + OverlayBDBSConfig" where
  "loadBackingStoreConfig ds w dir =
     (case os_ReadFile w (overlaybdConfPath dir) of
        Inl e \<Rightarrow> Inl (SysErr e)
      | Inr d \<Rightarrow> (case jsonUnmarshal ds d of None \<Rightarrow> Inl UnmarshalErr | Some c \<Rightarrow> Inr c))"

definition atomicWriteOverlaybdTargetConfig ::
  "deps \<Rightarrow> world \<Rightarrow> string \<Rightarrow> OverlayBDBSConfig \<Rightarrow> world \<times> error option" where
  "atomicWriteOverlaybdTargetConfig ds w dir configJSON =
     (case jsonMarshal ds configJSON of
        None \<Rightarrow> (w, Some MarshalErr)
      | Some d \<Rightarrow>
          (case AtomicWriteFile w (overlaybdConfPath dir) d of
             (w', Some e) \<Rightarrow> (w', Some (SysErr e))
           | (w', None) \<Rightarrow> (w', None)))"

definition updateSpec :: "deps \<Rightarrow> world \<Rightarrow> string \<Rightarrow> string \<Rightarrow> world \<times> error option" where
  "updateSpec ds w dir recordTracePath =
     (case loadBackingStoreConfig ds w dir of
        Inl e \<Rightarrow> (w, Some e)
      | Inr bsConfig \<Rightarrow>
          if recordTracePath = RecordTracePath bsConfig then (w, None)
          else atomicWriteOverlaybdTargetConfig ds w dir
                 (bsConfig\<lparr>RecordTracePath := recordTracePath\<rparr>))"

definition strings_LastIndexSlash :: "string \<Rightarrow> int" where
  "strings_LastIndexSlash s =
     (if CHR ''/'' \<in> set s
      then int (length s) - 1 - int (length (takeWhile (\<lambda>c. c \<noteq> CHR ''/'') (rev s)))
      else - 1)"

definition GetBlobRepoDigest :: "world \<Rightarrow> string \<Rightarrow> error + (string \<times> string)" where
  "GetBlobRepoDigest w dir =
     (case getTrimStringFromFile w (path_Join [dir, zdfsOssurlFile]) of
        Inl e \<Rightarrow> Inl e
      | Inr url \<Rightarrow>
          (let idx = strings_LastIndexSlash url
           in if take 6 (drop (nat (idx + 1)) url) \<noteq> ''sha256'' then Inl ParseDigestErr
              else if idx < 0 then Inl SliceBoundsPanic
              else Inr (take (nat idx) url, drop (nat (idx + 1)) url)))"

definition isDigit :: "char \<Rightarrow> bool" where
  "isDigit c = (48 \<le> (of_char c :: nat) \<and> (of_char c :: nat) \<le> 57)"

fun parseUintLoop :: "nat \<Rightarrow> string \<Rightarrow> 64 word \<times> error option" where
  \<comment> \<open>the digit loop of \<open>strconv.ParseUint\<close> for base 10 and 64 bits\<close>
  "parseUintLoop n [] = (of_nat n, None)"
| "parseUintLoop n (c # cs) =
     (if \<not> isDigit c then (0, Some SyntaxErr)
      else if n \<ge> (2 ^ 64 - 1) div 10 + 1 then (- 1, Some RangeErr)
      else (let n1 = n * 10 + (of_char c - 48)
            in if n1 > 2 ^ 64 - 1 then (- 1, Some RangeErr) else parseUintLoop n1 cs))"

definition strconv_ParseUint :: "string \<Rightarrow> 64 word \<times> error option" where
  "strconv_ParseUint s = (if s = [] then (0, Some SyntaxErr) else parseUintLoop 0 s)"

definition GetBlobSize :: "world \<Rightarrow> string \<Rightarrow> 64 word \<times> error option" where
  "GetBlobSize w dir =
     (case getTrimStringFromFile w (path_Join [dir, zdfsOssDataSizeFile]) of
        Inl e \<Rightarrow> (0, Some e)
      | Inr str \<Rightarrow> strconv_ParseUint str)"

definition constructImageBlobURL :: "deps \<Rightarrow> string \<Rightarrow> string \<times> error option" where
  "constructImageBlobURL ds ref =
     (case parseNamed ds ref of
        None \<Rightarrow> ([], Some InvalidRefErr)
      | Some (host, repo) \<Rightarrow>
          (''https://'' @ path_Join [host, ''v2'', repo] @ ''/blobs'', None))"

definition constructSpec ::
  "deps \<Rightarrow> world \<Rightarrow> string \<Rightarrow> string \<Rightarrow> string \<Rightarrow> string \<Rightarrow> 64 word \<Rightarrow> string
     \<Rightarrow> world \<times> error option" where
  "constructSpec ds w dir parent repo digest sz recordTracePath =
     (let own = \<lparr>File = [], Digest = digest, Size = sz, Dir = path_Join [dir, ''block'']\<rparr>;
          resultFile = overlaybdInitDebuglogPath dir
      in if parent = [] then
           atomicWriteOverlaybdTargetConfig ds w dir
             \<lparr>RepoBlobURL = repo,
              Lowers = [\<lparr>File = overlaybdBaseLayer, Digest = [], Size = 0, Dir = []\<rparr>] @ [own],
              ResultFile = resultFile, RecordTracePath = recordTracePath\<rparr>
         else
           (case loadBackingStoreConfig ds w parent of
              Inl e \<Rightarrow> (w, Some e)
            | Inr parentConfJSON \<Rightarrow>
                atomicWriteOverlaybdTargetConfig ds w dir
                  \<lparr>RepoBlobURL = (if repo = [] then RepoBlobURL parentConfJSON else repo),
                   Lowers = Lowers parentConfJSON @ [own],
                   ResultFile = resultFile, RecordTracePath = recordTracePath\<rparr>))"

definition makeConfig :: "deps \<Rightarrow> world \<Rightarrow> string \<Rightarrow> string \<Rightarrow> world \<times> error option" where
  "makeConfig ds w dir parent =
     (let dstDir = path_Join [dir, ''block'']
      in case GetBlobRepoDigest w dstDir of
           Inl e \<Rightarrow> (w, Some e)
         | Inr (repo0, digest) \<Rightarrow>
             (let refPath = path_Join [dir, path_Join [dir, ''image_ref'']];
                  repo = (if fst (pathExists w refPath)
                          then (let img = (case os_ReadFile w refPath of
                                             Inl e \<Rightarrow> [] | Inr d \<Rightarrow> d)
                                in fst (constructImageBlobURL ds img))
                          else repo0);
                  sz = fst (GetBlobSize w dstDir)
              in constructSpec ds w dir parent repo digest sz []))"

fun copyFiles :: "world \<Rightarrow> string \<Rightarrow> string \<Rightarrow> string list \<Rightarrow> world \<times> error option" where
  \<comment> \<open>the loop of \<open>copyPulledZdfsMetaFiles\<close>\<close>
  "copyFiles w srcDir dstDir [] = (w, None)"
| "copyFiles w srcDir dstDir (name # rest) =
     (let srcPath = path_Join [srcDir, name]
      in if os_Stat w srcPath = Inl ENOENT then copyFiles w srcDir dstDir rest
         else (case os_ReadFile w srcPath of
                 Inl e \<Rightarrow> (w, Some (SysErr e))
               | Inr d \<Rightarrow>
                   (case os_WriteFile w (path_Join [dstDir, name]) d of
                      (w', Some e) \<Rightarrow> (w', Some (SysErr e))
                    | (w', None) \<Rightarrow> copyFiles w' srcDir dstDir rest)))"

definition copyPulledZdfsMetaFiles :: "world \<Rightarrow> string \<Rightarrow> string \<Rightarrow> world \<times> error option" where
  "copyPulledZdfsMetaFiles w srcDir dstDir =
     copyFiles w srcDir dstDir
       [iNewFormat, zdfsChecksumFile, zdfsOssurlFile, zdfsOssDataSizeFile, zdfsOssTypeFile,
        zdfsTrace]"

definition migrateMeta :: "world \<Rightarrow> string \<Rightarrow> world \<times> error option" where
  \<comment> \<open>steps 2 to 4 of \<open>doDir\<close>: the temporary directory, the two copies, the rename\<close>
  "migrateMeta w dir =
     (case os_MkdirTemp w dir ''temp_for_prepare_dadimeta'' of
        (w1, Inl e) \<Rightarrow> (w1, Some (SysErr e))
      | (w1, Inr tmpDir) \<Rightarrow>
          (let srcDir = path_Join [dir, ''fs'']
           in case copyPulledZdfsMetaFiles w1 srcDir tmpDir of
                (w2, Some e) \<Rightarrow> (w2, Some e)
              | (w2, None) \<Rightarrow>
                  (case copyPulledZdfsMetaFiles w2 srcDir (path_Join [dir, ''block'']) of
                     (w3, Some e) \<Rightarrow> (w3, Some e)
                   | (w3, None) \<Rightarrow>
                       (case os_Rename w3 tmpDir (path_Join [dir, zdfsMetaDir]) of
                          (w4, Some e) \<Rightarrow> (w4, Some (SysErr e))
                        | (w4, None) \<Rightarrow> (w4, None)))))"

definition doDir :: "deps \<Rightarrow> string \<Rightarrow> string \<Rightarrow> world \<Rightarrow> world \<times> error option" where
  "doDir ds dir parent w =
     (case pathExists w (path_Join [dir, zdfsMetaDir]) of
        (b, Some e) \<Rightarrow> (w, Some e)
      | (b, None) \<Rightarrow>
          if b then
            (case pathExists w (overlaybdConfPath dir) of
               (configExists, Some e) \<Rightarrow> (w, Some e)
             | (configExists, None) \<Rightarrow>
                 if configExists then updateSpec ds w dir []
                 else makeConfig ds w dir parent)
          else if fst (pathExists w (path_Join [dir, ''block'', ''config.v1.json'']))
          then (w, None)
          else (case migrateMeta w dir of
                  (w', Some e) \<Rightarrow> (w', Some e)
                | (w', None) \<Rightarrow> makeConfig ds w' dir parent))"

text \<open>
  The walk of \<open>PrepareOverlayBDSpec\<close>: the loop over \<open>lowers\<close> from its last index down
  to its first, then the call on the last directory. It is written over any
  per-directory procedure and any state, and returns the state and the error.
\<close>

function walkLoop ::
  "(string \<Rightarrow> string \<Rightarrow> 's \<Rightarrow> 's \<times> error option) \<Rightarrow> string list \<Rightarrow> nat \<Rightarrow> string \<Rightarrow> 's
     \<Rightarrow> 's \<times> string \<times> error option" where
  "walkLoop step lowers m parent s =
     (if m < length lowers then
        (let dir = lowers ! (length lowers - m - 1)
         in case step dir parent s of
              (s', Some e) \<Rightarrow> (s', parent, Some e)
            | (s', None) \<Rightarrow> walkLoop step lowers (Suc m) dir s')
      else (s, parent, None))"
  by pat_completeness auto
termination
  by (relation "measure (\<lambda>(step, lowers, m, parent, s). length lowers - m)") auto

declare walkLoop.simps [simp del]

definition walk ::
  "(string \<Rightarrow> string \<Rightarrow> 's \<Rightarrow> 's \<times> error option) \<Rightarrow> string list \<Rightarrow> string \<Rightarrow> 's
     \<Rightarrow> 's \<times> error option" where
  "walk step lowers lastDir s =
     (case walkLoop step lowers 0 [] s of
        (s', parent, Some e) \<Rightarrow> (s', Some e)
      | (s', parent, None) \<Rightarrow> step lastDir parent s')"

text \<open>
  \<open>parentIDs\<close> is what \<open>storage.GetSnapshot\<close> gives for the key (nothing when the lookup
  fails: the source drops its error), \<open>snPath\<close> the caller's path resolver.
\<close>

definition PrepareOverlayBDSpec ::
  "deps \<Rightarrow> string list \<Rightarrow> (string \<Rightarrow> string) \<Rightarrow> world \<Rightarrow> string \<Rightarrow> string
     \<Rightarrow> world \<times> bool \<times> error option" where
  "PrepareOverlayBDSpec ds parentIDs snPath w ident dir =
     (case isOverlaybdLayer w dir of
        (b, err) \<Rightarrow>
          if \<not> b then (w, False, None)
          else if err \<noteq> None then (w, False, err)
          else (case walk (doDir ds) (map snPath parentIDs) (snPath ident) w of
                  (w', e) \<Rightarrow> (w', True, e)))"

section \<open>A concrete instance of the libraries, for running the program\<close>

text \<open>
  The theorems below hold for every instance of \<open>deps\<close>. To run the program on an
  example one instance is needed: a length-prefixed encoding of the descriptor (which
  JSON is not) with its decoder, and a parser that accepts \<open>host/path\<close> with an
  optional \<open>:tag\<close> when the host has a dot or a colon.
\<close>

definition encNat :: "nat \<Rightarrow> string" where
  "encNat n = replicate n (CHR ''1'') @ ''0''"

definition decNat :: "string \<Rightarrow> nat \<times> string" where
  "decNat s = (length (takeWhile (\<lambda>c. c = CHR ''1'') s),
               drop 1 (dropWhile (\<lambda>c. c = CHR ''1'') s))"

definition encStr :: "string \<Rightarrow> string" where
  "encStr x = encNat (length x) @ x"

definition decStr :: "string \<Rightarrow> string \<times> string" where
  "decStr s = (case decNat s of (n, r) \<Rightarrow> (take n r, drop n r))"

definition encLower :: "OverlayBDBSConfigLower \<Rightarrow> string" where
  "encLower l = encStr (File l) @ encStr (Digest l) @ encStr (itoa (unat (Size l))) @ encStr (Dir l)"

definition decLower :: "string \<Rightarrow> OverlayBDBSConfigLower \<times> string" where
  "decLower s =
     (case decStr s of (f, r1) \<Rightarrow>
      case decStr r1 of (d, r2) \<Rightarrow>
      case decStr r2 of (n, r3) \<Rightarrow>
      case decStr r3 of (b, r4) \<Rightarrow>
        (\<lparr>File = f, Digest = d, Size = fst (strconv_ParseUint n), Dir = b\<rparr>, r4))"

fun decLowers :: "nat \<Rightarrow> string \<Rightarrow> OverlayBDBSConfigLower list \<times> string" where
  "decLowers 0 s = ([], s)"
| "decLowers (Suc n) s =
     (case decLower s of (l, r) \<Rightarrow> case decLowers n r of (ls, r') \<Rightarrow> (l # ls, r'))"

definition demoMarshal :: "OverlayBDBSConfig \<Rightarrow> string option" where
  "demoMarshal c =
     Some (encStr (RepoBlobURL c) @ encNat (length (Lowers c)) @ concat (map encLower (Lowers c))
           @ encStr (ResultFile c) @ encStr (RecordTracePath c))"

definition demoUnmarshal :: "string \<Rightarrow> OverlayBDBSConfig option" where
  "demoUnmarshal s =
     (case decStr s of (u, r1) \<Rightarrow>
      case decNat r1 of (n, r2) \<Rightarrow>
      case decLowers n r2 of (ls, r3) \<Rightarrow>
      case decStr r3 of (rf, r4) \<Rightarrow>
      case decStr r4 of (tp, r5) \<Rightarrow>
        if r5 = [] \<and> u \<noteq> ''!'' then
          Some \<lparr>RepoBlobURL = u, Lowers = ls, ResultFile = rf, RecordTracePath = tp\<rparr>
        else None)"

definition demoParseNamed :: "string \<Rightarrow> (string \<times> string) option" where
  "demoParseNamed ref =
     (let host = takeWhile (\<lambda>c. c \<noteq> CHR ''/'') ref;
          rest = drop (Suc (length host)) ref;
          name = takeWhile (\<lambda>c. c \<noteq> CHR '':'') rest
      in if rest = [] then None
         else if name = [] then None
         else if CHR ''.'' \<in> set host then Some (host, name)
         else if CHR '':'' \<in> set host then Some (host, name)
         else None)"

definition demoDeps :: deps where
  "demoDeps = \<lparr>jsonMarshal = demoMarshal, jsonUnmarshal = demoUnmarshal,
               parseNamed = demoParseNamed\<rparr>"

section \<open>Notions used to state the properties\<close>

definition confKey :: "string \<Rightarrow> string" where
  \<comment> \<open>the name under which the file system keeps the descriptor of \<open>dir\<close>\<close>
  "confKey dir = path_Clean (overlaybdConfPath dir)"

definition storedDescriptor :: "deps \<Rightarrow> world \<Rightarrow> string \<Rightarrow> OverlayBDBSConfig \<Rightarrow> bool" where
  \<comment> \<open>the descriptor file of \<open>dir\<close> holds the encoding of \<open>c\<close>\<close>
  "storedDescriptor ds w dir c =
     (case jsonMarshal ds c of
        None \<Rightarrow> False
      | Some d \<Rightarrow> os_ReadFile w (overlaybdConfPath dir) = Inr d)"

definition baseLayerRef :: OverlayBDBSConfigLower where
  "baseLayerRef = \<lparr>File = overlaybdBaseLayer, Digest = [], Size = 0, Dir = []\<rparr>"

definition ownLower :: "string \<Rightarrow> string \<Rightarrow> 64 word \<Rightarrow> OverlayBDBSConfigLower" where
  "ownLower dir digest sz =
     \<lparr>File = [], Digest = digest, Size = sz, Dir = path_Join [dir, ''block'']\<rparr>"

definition wroteDescriptor ::
  "deps \<Rightarrow> world \<Rightarrow> world \<Rightarrow> string \<Rightarrow> OverlayBDBSConfig \<Rightarrow> bool" where
  \<comment> \<open>\<open>w'\<close> is \<open>w\<close> after one atomic write of the encoding of \<open>c\<close> to the descriptor
      file of \<open>dir\<close>, and nothing else\<close>
  "wroteDescriptor ds w w' dir c =
     (case jsonMarshal ds c of
        None \<Rightarrow> False
      | Some d \<Rightarrow>
          w' = w\<lparr>nodes := AList.update (confKey dir) (NFile d) (nodes w),
                 oplog := oplog w @ [AtomicWriteEv (confKey dir) d]\<rparr>)"

definition inherited :: "deps \<Rightarrow> world \<Rightarrow> string \<Rightarrow> OverlayBDBSConfigLower list option" where
  \<comment> \<open>the lowers a layer takes over: the base-layer reference without a parent, the
      lowers of the parent's descriptor otherwise (nothing when that cannot be loaded)\<close>
  "inherited ds w parent =
     (if parent = [] then Some [baseLayerRef]
      else (case loadBackingStoreConfig ds w parent of
              Inl e \<Rightarrow> None
            | Inr pc \<Rightarrow> Some (Lowers pc)))"

definition baseDescriptor ::
  "string \<Rightarrow> string \<Rightarrow> string \<Rightarrow> 64 word \<Rightarrow> string \<Rightarrow> OverlayBDBSConfig" where
  \<comment> \<open>the descriptor of a base layer\<close>
  "baseDescriptor dir repo digest sz tp =
     \<lparr>RepoBlobURL = repo, Lowers = [baseLayerRef, ownLower dir digest sz],
      ResultFile = overlaybdInitDebuglogPath dir, RecordTracePath = tp\<rparr>"

definition traced ::
  "(string \<Rightarrow> string \<Rightarrow> 's \<Rightarrow> 's \<times> error option) \<Rightarrow> string \<Rightarrow> string
     \<Rightarrow> 's \<times> (string \<times> string) list \<Rightarrow> ('s \<times> (string \<times> string) list) \<times> error option" where
  \<comment> \<open>a per-directory procedure that also notes, in order, the directory and the
      parent of every call made to it\<close>
  "traced step dir parent st =
     (case step dir parent (fst st) of (s', e) \<Rightarrow> ((s', snd st @ [(dir, parent)]), e))"

fun walkList ::
  "(string \<Rightarrow> string \<Rightarrow> 's \<Rightarrow> 's \<times> error option) \<Rightarrow> string list \<Rightarrow> string \<Rightarrow> 's
     \<Rightarrow> 's \<times> string \<times> error option" where
  \<comment> \<open>the loop of the walk, over the list of directories in the order visited\<close>
  "walkList step [] parent s = (s, parent, None)"
| "walkList step (d # ds) parent s =
     (case step d parent s of
        (s', Some e) \<Rightarrow> (s', parent, Some e)
      | (s', None) \<Rightarrow> walkList step ds d s')"

definition walkOrder :: "string list \<Rightarrow> (string \<Rightarrow> string) \<Rightarrow> string \<Rightarrow> string list" where
  \<comment> \<open>the ancestors' directories from the last parent ID to the first, then the
      directory of the active layer\<close>
  "walkOrder parentIDs snPath ident = rev (map snPath parentIDs) @ [snPath ident]"

definition callsOf :: "string list \<Rightarrow> (string \<times> string) list" where
  \<comment> \<open>each directory with the one before it; the empty string before the first\<close>
  "callsOf order = zip order ([] # order)"

definition lastComp :: "string \<Rightarrow> string" where
  "lastComp p = last (splitSlash p)"

definition simpleName :: "string \<Rightarrow> bool" where
  "simpleName n = (n \<noteq> [] \<and> n \<noteq> ''.'' \<and> n \<noteq> ''..'' \<and> CHR ''/'' \<notin> set n)"

definition isAtomicWriteTo :: "string \<Rightarrow> event \<Rightarrow> bool" where
  "isAtomicWriteTo k ev = (case ev of AtomicWriteEv k' d \<Rightarrow> k' = k | _ \<Rightarrow> False)"

definition onlyDescriptorWrites :: "world \<Rightarrow> world \<Rightarrow> string \<Rightarrow> bool" where
  \<comment> \<open>from \<open>w\<close> to \<open>w'\<close> the only mutating system calls issued were atomic writes to
      the descriptor file of \<open>dir\<close>: no directory made, no file copied, no rename\<close>
  "onlyDescriptorWrites w w' dir =
     (take (length (oplog w)) (oplog w') = oplog w \<and>
      list_all (isAtomicWriteTo (confKey dir)) (drop (length (oplog w)) (oplog w')))"

definition exSnPath :: "string \<Rightarrow> string" where
  "exSnPath ident = CHR ''/'' # ident"

definition validEmptyTrace :: "deps \<Rightarrow> world \<Rightarrow> string \<Rightarrow> bool" where
  \<comment> \<open>the descriptor of \<open>dir\<close> can be read and parsed, and its trace path is empty\<close>
  "validEmptyTrace ds w dir =
     (case loadBackingStoreConfig ds w dir of
        Inl e \<Rightarrow> False
      | Inr c \<Rightarrow> RecordTracePath c = [])"

definition keepsMeta :: "world \<Rightarrow> world \<Rightarrow> bool" where
  \<comment> \<open>no name whose last element is \<open>zdfsmeta\<close> changed between the two worlds\<close>
  "keepsMeta w w' =
     (denied w' = denied w \<and>
      (\<forall>k. lastComp k = ''zdfsmeta'' \<longrightarrow> map_of (nodes w') k = map_of (nodes w) k))"

definition numeric :: "string \<Rightarrow> bool" where
  \<comment> \<open>a non-empty string of decimal digits\<close>
  "numeric str = (str \<noteq> [] \<and> list_all isDigit str)"

section \<open>Example worlds\<close>

text \<open>A layer \<open>/a\<close> whose descriptor file holds a base descriptor with trace path \<open>t\<close>.\<close>

definition exDesc :: OverlayBDBSConfig where
  "exDesc = baseDescriptor ''/a'' ''u'' ''sha256:ab'' 42 ''t''"

definition exWorld :: world where
  "exWorld = \<lparr>nodes = [(''/a'', NDir), (''/a/block'', NDir),
                       (''/a/block/config.v1.json'', NFile (the (demoMarshal exDesc)))],
              denied = [], rand = [7], oplog = [], pouchDirLock = False\<rparr>"

text \<open>Two layers \<open>/a\<close> and \<open>/b\<close> without descriptors, and the two builds on them.\<close>

definition exEmpty :: world where
  "exEmpty = \<lparr>nodes = [(''/a'', NDir), (''/a/block'', NDir), (''/b'', NDir), (''/b/block'', NDir)],
              denied = [], rand = [7], oplog = [], pouchDirLock = False\<rparr>"

definition exBaseRun :: "world \<times> error option" where
  "exBaseRun = constructSpec demoDeps exEmpty ''/a'' [] ''u'' ''sha256:ab'' 42 []"

definition exChildRun :: "world \<times> error option" where
  "exChildRun = constructSpec demoDeps (fst exBaseRun) ''/b'' ''/a'' [] ''sha256:cd'' 7 []"

text \<open>Two layers that both have a descriptor file and no metadata directory.\<close>

definition exTwo :: world where
  "exTwo = \<lparr>nodes = [(''/a'', NDir), (''/a/block'', NDir),
                     (''/a/block/config.v1.json'', NFile ''x''),
                     (''/b'', NDir), (''/b/block'', NDir),
                     (''/b/block/config.v1.json'', NFile ''y'')],
            denied = [], rand = [7], oplog = [], pouchDirLock = False\<rparr>"

text \<open>The layer of \<open>exWorld\<close> with a metadata directory, and one preparation of it.\<close>

definition exWorldM :: world where
  "exWorldM = \<lparr>nodes = [(''/a'', NDir), (''/a/block'', NDir), (''/a/zdfsmeta'', NDir),
                        (''/a/block/config.v1.json'', NFile (the (demoMarshal exDesc)))],
               denied = [], rand = [7], oplog = [], pouchDirLock = False\<rparr>"

definition exMetaRun :: "world \<times> error option" where
  "exMetaRun = doDir demoDeps ''/a'' [] exWorldM"

text \<open>
  A legacy layer with two of the metadata files, in whose \<open>block\<close> directory the
  name of the second is taken by a directory; and the world its migration leaves
  behind.
\<close>

definition exLegacy :: world where
  "exLegacy = \<lparr>nodes = [(''/a'', NDir), (''/a/fs'', NDir), (''/a/block'', NDir),
                        (''/a/block/.trace'', NDir),
                        (''/a/fs/.type'', NFile ''oss''), (''/a/fs/.trace'', NFile ''T'')],
               denied = [], rand = [7], oplog = [], pouchDirLock = False\<rparr>"

definition exLegacyAfter :: world where
  "exLegacyAfter =
     \<lparr>nodes = [(''/a'', NDir), (''/a/fs'', NDir), (''/a/block'', NDir),
               (''/a/block/.trace'', NDir),
               (''/a/fs/.type'', NFile ''oss''), (''/a/fs/.trace'', NFile ''T''),
               (''/a/temp_for_prepare_dadimeta7'', NDir),
               (''/a/temp_for_prepare_dadimeta7/.type'', NFile ''oss''),
               (''/a/temp_for_prepare_dadimeta7/.trace'', NFile ''T''),
               (''/a/block/.type'', NFile ''oss'')],
      denied = [], rand = [],
      oplog = [MkdirEv ''/a/temp_for_prepare_dadimeta7'',
               WriteFileEv ''/a/temp_for_prepare_dadimeta7/.type'' ''oss'',
               WriteFileEv ''/a/temp_for_prepare_dadimeta7/.trace'' ''T'',
               WriteFileEv ''/a/block/.type'' ''oss'',
               WriteFileEv ''/a/block/.trace'' ''T''],
      pouchDirLock = False\<rparr>"

text \<open>A layer whose first marker file cannot be inspected.\<close>

definition exDenied :: world where
  "exDenied = \<lparr>nodes = [(''/a'', NDir), (''/a/fs'', NDir)],
               denied = [''/a/fs/.aaaaaaaaaaaaaaaa.lsmt''], rand = [7], oplog = [],
               pouchDirLock = False\<rparr>"

text \<open>
  A migrated layer without a descriptor: with no size marker, with a size marker
  that is not a number, and with a size marker and an image reference beside it.
\<close>

definition exNoSize :: world where
  "exNoSize = \<lparr>nodes = [(''/a'', NDir), (''/a/block'', NDir),
                        (''/a/block/.oss_url'', NFile ''r/sha256:ab'')],
               denied = [], rand = [7], oplog = [], pouchDirLock = False\<rparr>"

definition exBadSize :: world where
  "exBadSize = \<lparr>nodes = [(''/a'', NDir), (''/a/block'', NDir),
                         (''/a/block/.oss_url'', NFile ''r/sha256:ab''),
                         (''/a/block/.data_size'', NFile ''4x'')],
                denied = [], rand = [7], oplog = [], pouchDirLock = False\<rparr>"

definition exImageRef :: world where
  "exImageRef = \<lparr>nodes = [(''/a'', NDir), (''/a/block'', NDir),
                          (''/a/block/.oss_url'', NFile ''r/sha256:ab''),
                          (''/a/block/.data_size'', NFile ''5''),
                          (''/a/image_ref'', NFile ''reg.io/n:t'')],
                 denied = [], rand = [7], oplog = [], pouchDirLock = False\<rparr>"

text \<open>The layer of \<open>exWorldM\<close> while another goroutine holds the package mutex.\<close>

definition exLocked :: world where
  "exLocked = exWorldM\<lparr>pouchDirLock := True\<rparr>"

definition exNoSizeRun :: "world \<times> error option" where
  "exNoSizeRun = makeConfig demoDeps exNoSize ''/a'' []"

definition exImageRefRun :: "world \<times> error option" where
  "exImageRefRun = makeConfig demoDeps exImageRef ''/a'' []"

definition exLockedRun :: "world \<times> bool \<times> error option" where
  "exLockedRun = PrepareOverlayBDSpec demoDeps [] exSnPath exLocked ''a'' ''/a''"

section \<open>Facts about the file system\<close>

lemmas path_defs = path_Join_def path_Clean_def cleanStep_def

lemmas os_defs = os_Stat_def os_ReadFile_def os_WriteFile_def putFile_def os_Mkdir_def
  os_MkdirTemp_def os_Rename_def lookupNode_def parentOf_def joinPath_def isUnder_def rekey_def
  AtomicWriteFile_def

lemmas name_defs = zdfsMetaDir_def iNewFormat_def zdfsChecksumFile_def zdfsOssurlFile_def
  zdfsOssDataSizeFile_def zdfsOssTypeFile_def zdfsTrace_def overlaybdBaseLayer_def

lemmas codec_defs = demoMarshal_def demoUnmarshal_def encNat_def decNat_def encStr_def
  decStr_def encLower_def decLower_def strconv_ParseUint_def isDigit_def itoa.simps

lemma putFile_fail: "putFile w k d = (w', Some e) \<Longrightarrow> w' = w"
  by (auto simp: putFile_def split: if_splits option.splits node.splits)

lemma putFile_ok:
  assumes "putFile w k d = (w', None)"
  shows "w' = w\<lparr>nodes := AList.update k (NFile d) (nodes w)\<rparr>"
    and "k \<notin> set (denied w)"
    and "lookupNode w k \<noteq> Some NDir"
  using assms by (auto simp: putFile_def split: if_splits option.splits node.splits)

lemma lookupNode_put:
  assumes "lookupNode w k \<noteq> Some NDir"
  shows "lookupNode (w\<lparr>nodes := AList.update k (NFile d) (nodes w)\<rparr>) q =
           (if q = k then Some (NFile d) else lookupNode w q)"
  using assms by (auto simp: lookupNode_def update_conv')

lemma AtomicWriteFile_fail: "AtomicWriteFile w p d = (w', Some e) \<Longrightarrow> nodes w' = nodes w"
  by (auto simp: AtomicWriteFile_def Let_def dest: putFile_fail)

lemma AtomicWriteFile_ok:
  assumes "AtomicWriteFile w p d = (w', None)"
  shows "w' = w\<lparr>nodes := AList.update (path_Clean p) (NFile d) (nodes w),
                 oplog := oplog w @ [AtomicWriteEv (path_Clean p) d]\<rparr>"
    and "path_Clean p \<notin> set (denied w)"
    and "lookupNode w (path_Clean p) \<noteq> Some NDir"
  using assms putFile_ok [of "w\<lparr>oplog := oplog w @ [AtomicWriteEv (path_Clean p) d]\<rparr>" "path_Clean p" d w']
  by (auto simp: AtomicWriteFile_def Let_def lookupNode_def)

lemma AtomicWriteFile_read:
  assumes "AtomicWriteFile w p d = (w', None)"
  shows "os_ReadFile w' q =
           (if path_Clean q = path_Clean p then Inr d else os_ReadFile w q)"
proof -
  note ok = AtomicWriteFile_ok [OF assms]
  have "lookupNode w' k = (if k = path_Clean p then Some (NFile d) else lookupNode w k)" for k
    using ok(3) by (auto simp: ok(1) lookupNode_def update_conv')
  moreover have "denied w' = denied w" by (simp add: ok(1))
  ultimately show ?thesis using ok(2) by (simp add: os_ReadFile_def Let_def)
qed

lemma AtomicWriteFile_stat:
  assumes "AtomicWriteFile w p d = (w', None)"
  shows "os_Stat w' q =
           (if path_Clean q = path_Clean p then Inr (NFile d) else os_Stat w q)"
proof -
  note ok = AtomicWriteFile_ok [OF assms]
  have "lookupNode w' k = (if k = path_Clean p then Some (NFile d) else lookupNode w k)" for k
    using ok(3) by (auto simp: ok(1) lookupNode_def update_conv')
  moreover have "denied w' = denied w" by (simp add: ok(1))
  ultimately show ?thesis using ok(2) by (simp add: os_Stat_def Let_def)
qed

section \<open>Writing and refreshing a descriptor\<close>

lemma atomicWrite_ok:
  assumes "atomicWriteOverlaybdTargetConfig ds w dir c = (w', None)"
  shows "\<exists>d. jsonMarshal ds c = Some d \<and> AtomicWriteFile w (overlaybdConfPath dir) d = (w', None)"
  using assms
  by (auto simp: atomicWriteOverlaybdTargetConfig_def split: option.splits prod.splits)

lemma atomicWrite_fail:
  assumes "atomicWriteOverlaybdTargetConfig ds w dir c = (w', Some e)"
  shows "nodes w' = nodes w"
  using assms
  by (auto simp: atomicWriteOverlaybdTargetConfig_def split: option.splits prod.splits
           dest: AtomicWriteFile_fail)

lemma atomicWrite_stored:
  assumes "atomicWriteOverlaybdTargetConfig ds w dir c = (w', None)"
  shows "storedDescriptor ds w' dir c"
proof -
  from atomicWrite_ok [OF assms] obtain d where
    d: "jsonMarshal ds c = Some d" "AtomicWriteFile w (overlaybdConfPath dir) d = (w', None)"
    by blast
  show ?thesis using d(1) AtomicWriteFile_read [OF d(2), of "overlaybdConfPath dir"]
    by (simp add: storedDescriptor_def)
qed

lemma atomicWrite_wrote:
  assumes "atomicWriteOverlaybdTargetConfig ds w dir c = (w', None)"
  shows "wroteDescriptor ds w w' dir c"
proof -
  from atomicWrite_ok [OF assms] obtain d where
    d: "jsonMarshal ds c = Some d" "AtomicWriteFile w (overlaybdConfPath dir) d = (w', None)"
    by blast
  show ?thesis using d(1) AtomicWriteFile_ok(1) [OF d(2)]
    by (simp add: wroteDescriptor_def confKey_def)
qed

lemma atomicWrite_read_other:
  assumes "atomicWriteOverlaybdTargetConfig ds w dir c = (w', None)"
    and "path_Clean q \<noteq> confKey dir"
  shows "os_ReadFile w' q = os_ReadFile w q"
proof -
  from atomicWrite_ok [OF assms(1)] obtain d where
    d: "AtomicWriteFile w (overlaybdConfPath dir) d = (w', None)"
    by blast
  show ?thesis using assms(2) AtomicWriteFile_read [OF d, of q]
    by (simp add: confKey_def)
qed

text \<open>
  C10. When the descriptor of \<open>dir\<close> can be read and parsed as \<open>c\<close>, \<open>updateSpec\<close> with
  the trace path \<open>p\<close> does nothing at all if \<open>c\<close> already has that trace path: the world
  it returns is the one it was given, so no system call that writes was issued.
  Otherwise it issues exactly one atomic write, to the descriptor file of \<open>dir\<close>, of
  the encoding of \<open>c\<close> with only \<open>RecordTracePath\<close> replaced by \<open>p\<close> (so \<open>Lowers\<close>,
  \<open>RepoBlobURL\<close> and \<open>ResultFile\<close> are those of \<open>c\<close>); after it the file holds that
  encoding and every other file reads as before. If the write fails, no node changed.
\<close>

theorem updateSpec_changes_only_trace_path:
  assumes "loadBackingStoreConfig ds w dir = Inr c"
  shows "(RecordTracePath c = p \<longrightarrow> updateSpec ds w dir p = (w, None)) \<and>
         (RecordTracePath c \<noteq> p \<longrightarrow>
            (case updateSpec ds w dir p of
               (w', None) \<Rightarrow>
                 wroteDescriptor ds w w' dir (c\<lparr>RecordTracePath := p\<rparr>) \<and>
                 storedDescriptor ds w' dir (c\<lparr>RecordTracePath := p\<rparr>) \<and>
                 Lowers (c\<lparr>RecordTracePath := p\<rparr>) = Lowers c \<and>
                 RepoBlobURL (c\<lparr>RecordTracePath := p\<rparr>) = RepoBlobURL c \<and>
                 ResultFile (c\<lparr>RecordTracePath := p\<rparr>) = ResultFile c \<and>
                 (\<forall>q. path_Clean q \<noteq> confKey dir \<longrightarrow> os_ReadFile w' q = os_ReadFile w q)
             | (w', Some e) \<Rightarrow> nodes w' = nodes w))"
proof (intro conjI impI)
  assume "RecordTracePath c = p"
  then show "updateSpec ds w dir p = (w, None)"
    using assms by (simp add: updateSpec_def)
next
  assume ne: "RecordTracePath c \<noteq> p"
  let ?c = "c\<lparr>RecordTracePath := p\<rparr>"
  have u: "updateSpec ds w dir p = atomicWriteOverlaybdTargetConfig ds w dir ?c"
    using assms ne by (auto simp: updateSpec_def)
  obtain w' r where r: "atomicWriteOverlaybdTargetConfig ds w dir ?c = (w', r)"
    by (cases "atomicWriteOverlaybdTargetConfig ds w dir ?c")
  show "case updateSpec ds w dir p of
          (w', None) \<Rightarrow>
            wroteDescriptor ds w w' dir ?c \<and> storedDescriptor ds w' dir ?c \<and>
            Lowers ?c = Lowers c \<and> RepoBlobURL ?c = RepoBlobURL c \<and>
            ResultFile ?c = ResultFile c \<and>
            (\<forall>q. path_Clean q \<noteq> confKey dir \<longrightarrow> os_ReadFile w' q = os_ReadFile w q)
        | (w', Some e) \<Rightarrow> nodes w' = nodes w"
  proof (cases r)
    case None
    with r have ok: "atomicWriteOverlaybdTargetConfig ds w dir ?c = (w', None)" by simp
    show ?thesis
      using atomicWrite_wrote [OF ok] atomicWrite_stored [OF ok] atomicWrite_read_other [OF ok]
      by (simp add: u ok)
  next
    case (Some e)
    with r have bad: "atomicWriteOverlaybdTargetConfig ds w dir ?c = (w', Some e)" by simp
    show ?thesis using atomicWrite_fail [OF bad] by (simp add: u bad)
  qed
qed

section \<open>Building a descriptor\<close>

lemma constructSpec_cases:
  assumes "constructSpec ds w dir parent repo digest sz tp = (w', None)"
  shows "\<exists>ls u. inherited ds w parent = Some ls \<and>
           atomicWriteOverlaybdTargetConfig ds w dir
             \<lparr>RepoBlobURL = u, Lowers = ls @ [ownLower dir digest sz],
              ResultFile = overlaybdInitDebuglogPath dir, RecordTracePath = tp\<rparr> = (w', None)"
proof (cases "parent = []")
  case True
  then show ?thesis using assms
    by (auto simp: constructSpec_def inherited_def baseLayerRef_def ownLower_def Let_def)
next
  case False
  then show ?thesis using assms
    by (auto simp: constructSpec_def inherited_def ownLower_def Let_def split: sum.splits)
qed

lemma constructSpec_base:
  assumes "constructSpec ds w dir [] repo digest sz tp = (w', None)"
  shows "atomicWriteOverlaybdTargetConfig ds w dir (baseDescriptor dir repo digest sz tp)
           = (w', None)"
  using assms
  by (simp add: constructSpec_def baseDescriptor_def baseLayerRef_def ownLower_def Let_def)

text \<open>
  C1. Whenever \<open>constructSpec\<close> succeeds, the descriptor it stored for \<open>dir\<close> has as
  lowers the inherited ones, in order, followed by exactly one entry of its own with
  the digest, the size (the 64 bits of the \<open>uint64\<close>, kept as an \<open>int64\<close>) and the
  \<open>block\<close> directory of \<open>dir\<close>; the inherited ones are the single constant base-layer
  reference when the parent argument is empty and the lowers of the parent's
  descriptor otherwise. For a chain of two: when the base layer's descriptor was built
  without a parent, the codec decodes what it encoded for it, and the child is then
  built with the base as parent in a world where the base's descriptor file still
  reads the same, the child's lowers are the base-layer reference, the base's entry
  and the child's entry, in that order.
\<close>

theorem constructSpec_lowers_chain:
  "(constructSpec ds w dir parent repo digest sz tp = (w', None) \<longrightarrow>
      (\<exists>ls c. inherited ds w parent = Some ls \<and> storedDescriptor ds w' dir c \<and>
               Lowers c = ls @ [ownLower dir digest sz])) \<and>
   (baseDir \<noteq> [] \<longrightarrow>
    constructSpec ds wb baseDir [] rb db sb tb = (wb', None) \<longrightarrow>
    Option.bind (jsonMarshal ds (baseDescriptor baseDir rb db sb tb)) (jsonUnmarshal ds)
      = Some (baseDescriptor baseDir rb db sb tb) \<longrightarrow>
    os_ReadFile wk (overlaybdConfPath baseDir) = os_ReadFile wb' (overlaybdConfPath baseDir) \<longrightarrow>
    constructSpec ds wk childDir baseDir rc dc sc tc = (wc, None) \<longrightarrow>
      (\<exists>c. storedDescriptor ds wc childDir c \<and>
           Lowers c = [baseLayerRef, ownLower baseDir db sb, ownLower childDir dc sc]))"
proof (intro conjI impI)
  assume a: "constructSpec ds w dir parent repo digest sz tp = (w', None)"
  from constructSpec_cases [OF a] obtain ls u where
    ls: "inherited ds w parent = Some ls"
    and wr: "atomicWriteOverlaybdTargetConfig ds w dir
               \<lparr>RepoBlobURL = u, Lowers = ls @ [ownLower dir digest sz],
                ResultFile = overlaybdInitDebuglogPath dir, RecordTracePath = tp\<rparr> = (w', None)"
    by blast
  from atomicWrite_stored [OF wr] ls
  show "\<exists>ls c. inherited ds w parent = Some ls \<and> storedDescriptor ds w' dir c \<and>
               Lowers c = ls @ [ownLower dir digest sz]"
    by fastforce
next
  let ?c0 = "baseDescriptor baseDir rb db sb tb"
  assume nb: "baseDir \<noteq> []"
    and b: "constructSpec ds wb baseDir [] rb db sb tb = (wb', None)"
    and rt: "Option.bind (jsonMarshal ds ?c0) (jsonUnmarshal ds) = Some ?c0"
    and same: "os_ReadFile wk (overlaybdConfPath baseDir) = os_ReadFile wb' (overlaybdConfPath baseDir)"
    and ch: "constructSpec ds wk childDir baseDir rc dc sc tc = (wc, None)"
  from atomicWrite_stored [OF constructSpec_base [OF b]]
  have st: "storedDescriptor ds wb' baseDir ?c0" .
  then obtain d where d: "jsonMarshal ds ?c0 = Some d"
    "os_ReadFile wb' (overlaybdConfPath baseDir) = Inr d"
    by (auto simp: storedDescriptor_def split: option.splits)
  from rt d(1) have "jsonUnmarshal ds d = Some ?c0" by simp
  with d(2) same have ld: "loadBackingStoreConfig ds wk baseDir = Inr ?c0"
    by (simp add: loadBackingStoreConfig_def)
  have inh: "inherited ds wk baseDir = Some [baseLayerRef, ownLower baseDir db sb]"
    using nb ld by (simp add: inherited_def baseDescriptor_def)
  from constructSpec_cases [OF ch] inh obtain u where
    wr: "atomicWriteOverlaybdTargetConfig ds wk childDir
           \<lparr>RepoBlobURL = u,
            Lowers = [baseLayerRef, ownLower baseDir db sb] @ [ownLower childDir dc sc],
            ResultFile = overlaybdInitDebuglogPath childDir, RecordTracePath = tc\<rparr> = (wc, None)"
    by auto
  from atomicWrite_stored [OF wr]
  show "\<exists>c. storedDescriptor ds wc childDir c \<and>
           Lowers c = [baseLayerRef, ownLower baseDir db sb, ownLower childDir dc sc]"
    by fastforce
qed

section \<open>The last element of a path\<close>

lemma splitSlash_ne: "splitSlash p \<noteq> []"
  by (induction p) (auto split: list.splits)

lemma splitSlash_append: "splitSlash (a @ CHR ''/'' # b) = splitSlash a @ splitSlash b"
proof (induction a)
  case Nil
  show ?case using splitSlash_ne [of b] by (cases "splitSlash b") simp_all
next
  case (Cons c a)
  show ?case
  proof (cases "c = CHR ''/''")
    case True
    then show ?thesis using Cons by simp
  next
    case False
    obtain x xs where x: "splitSlash a = x # xs"
      using splitSlash_ne [of a] by (cases "splitSlash a") auto
    show ?thesis using False Cons x by simp
  qed
qed

lemma splitSlash_noslash: "CHR ''/'' \<notin> set n \<Longrightarrow> splitSlash n = [n]"
  by (induction n) auto

lemma lastComp_append: "CHR ''/'' \<notin> set n \<Longrightarrow> lastComp (a @ CHR ''/'' # n) = n"
  by (simp add: lastComp_def splitSlash_append splitSlash_noslash)

lemma lastComp_noslash: "CHR ''/'' \<notin> set n \<Longrightarrow> lastComp n = n"
  by (simp add: lastComp_def splitSlash_noslash)

lemma joinSlash_snoc: "xs \<noteq> [] \<Longrightarrow> joinSlash (xs @ [n]) = joinSlash xs @ CHR ''/'' # n"
  by (induction xs rule: joinSlash.induct) auto

lemma cleanStep_simple: "simpleName n \<Longrightarrow> cleanStep r st n = n # st"
  by (simp add: cleanStep_def simpleName_def)

lemma lastComp_Clean:
  assumes "simpleName n" and "lastComp p = n"
  shows "lastComp (path_Clean p) = n"
proof -
  have ns: "CHR ''/'' \<notin> set n" and ne: "n \<noteq> []" using assms(1) by (simp_all add: simpleName_def)
  have sp: "splitSlash p = butlast (splitSlash p) @ [n]"
    using assms(2) append_butlast_last_id [OF splitSlash_ne [of p]] by (simp add: lastComp_def)
  define r where "r = (p \<noteq> [] \<and> hd p = CHR ''/'')"
  define st where "st = foldl (cleanStep r) [] (butlast (splitSlash p))"
  have f: "foldl (cleanStep r) [] (splitSlash p) = n # st"
    by (subst sp) (simp add: st_def cleanStep_simple [OF assms(1)])
  have pc: "path_Clean p =
              (if r then CHR ''/'' # joinSlash (rev (n # st))
               else if joinSlash (rev (n # st)) = [] then ''.'' else joinSlash (rev (n # st)))"
    by (simp only: path_Clean_def Let_def r_def [symmetric] f)
  show ?thesis
  proof (cases "st = []")
    case True
    have "path_Clean p = (if r then [] @ CHR ''/'' # n else n)"
      using ne by (simp add: pc True)
    then show ?thesis using ns lastComp_append [of n "[]"] lastComp_noslash [of n] by auto
  next
    case False
    have "path_Clean p = (if r then (CHR ''/'' # joinSlash (rev st)) @ CHR ''/'' # n
                          else joinSlash (rev st) @ CHR ''/'' # n)"
      using False by (simp add: pc joinSlash_snoc)
    then show ?thesis
      using lastComp_append [OF ns, of "CHR ''/'' # joinSlash (rev st)"]
        lastComp_append [OF ns, of "joinSlash (rev st)"]
      by (cases r) simp_all
  qed
qed

lemma lastComp_Join2: "simpleName n \<Longrightarrow> lastComp (path_Join [d, n]) = n"
  by (cases "d = []")
     (auto simp: path_Join_def simpleName_def intro!: lastComp_Clean lastComp_append
        lastComp_noslash)

lemma lastComp_Join3: "simpleName n \<Longrightarrow> b \<noteq> [] \<Longrightarrow> lastComp (path_Join [d, b, n]) = n"
proof -
  assume n: "simpleName n" and b: "b \<noteq> []"
  have "lastComp (d @ CHR ''/'' # b @ CHR ''/'' # n) = n"
    using lastComp_append [of n "d @ CHR ''/'' # b"] n by (simp add: simpleName_def)
  moreover have "lastComp (b @ CHR ''/'' # n) = n"
    using lastComp_append [of n b] n by (simp add: simpleName_def)
  ultimately show ?thesis using n b
    by (cases "d = []") (auto simp: path_Join_def simpleName_def intro!: lastComp_Clean)
qed

lemma metaKey_lastComp: "lastComp (path_Clean (path_Join [dir, zdfsMetaDir])) = ''zdfsmeta''"
  by (rule lastComp_Clean)
     (simp_all add: simpleName_def zdfsMetaDir_def lastComp_Join2)

lemma confKey_lastComp: "lastComp (confKey dir) = ''config.v1.json''"
  unfolding confKey_def overlaybdConfPath_def
  by (rule lastComp_Clean) (simp_all add: simpleName_def lastComp_Join3)

lemma metaKey_not_confKey: "path_Clean (path_Join [dir, zdfsMetaDir]) \<noteq> confKey dir"
proof
  assume "path_Clean (path_Join [dir, zdfsMetaDir]) = confKey dir"
  then have "lastComp (path_Clean (path_Join [dir, zdfsMetaDir])) = lastComp (confKey dir)"
    by simp
  then show False by (simp add: metaKey_lastComp confKey_lastComp)
qed

section \<open>The order of the walk\<close>

lemma walkLoop_walkList:
  "walkLoop step lowers m parent s = walkList step (drop m (rev lowers)) parent s"
proof (induction step lowers m parent s rule: walkLoop.induct)
  case (1 step lowers m parent s)
  show ?case
  proof (cases "m < length lowers")
    case True
    then have d: "drop m (rev lowers) = lowers ! (length lowers - m - 1) # drop (Suc m) (rev lowers)"
      by (simp add: Cons_nth_drop_Suc [symmetric] rev_nth)
    show ?thesis
      using True 1
      by (subst walkLoop.simps) (auto simp: d Let_def split: prod.splits option.splits)
  next
    case False
    then show ?thesis by (subst walkLoop.simps) simp
  qed
qed

lemma traced_apply:
  "traced step d p (s, tr) = (case step d p s of (s', e) \<Rightarrow> ((s', tr @ [(d, p)]), e))"
  by (simp add: traced_def)

lemma walkList_traced:
  "walkList (traced step) ds p (s, tr) = ((s', tr'), p', e) \<Longrightarrow>
     walkList step ds p s = (s', p', e) \<and>
     (\<exists>k. k \<le> length ds \<and> tr' = tr @ take k (zip ds (p # ds))) \<and>
     (e = None \<longrightarrow> tr' = tr @ zip ds (p # ds) \<and> p' = last (p # ds)) \<and>
     (e \<noteq> None \<longrightarrow> tr' \<noteq> tr)"
proof (induction ds arbitrary: p s tr)
  case Nil
  then show ?case by auto
next
  case (Cons d ds)
  obtain s1 r where st: "step d p s = (s1, r)" by (cases "step d p s")
  show ?case
  proof (cases r)
    case None
    with Cons.prems st
    have rec: "walkList (traced step) ds d (s1, tr @ [(d, p)]) = ((s', tr'), p', e)"
      by (simp add: traced_apply)
    from Cons.IH [OF rec] obtain k where
      a: "walkList step ds d s1 = (s', p', e)"
      and k: "k \<le> length ds" "tr' = (tr @ [(d, p)]) @ take k (zip ds (d # ds))"
      and c: "e = None \<longrightarrow> tr' = (tr @ [(d, p)]) @ zip ds (d # ds) \<and> p' = last (d # ds)"
      by blast
    have "Suc k \<le> length (d # ds) \<and> tr' = tr @ take (Suc k) (zip (d # ds) (p # d # ds))"
      using k by simp
    then have ex: "\<exists>k. k \<le> length (d # ds) \<and> tr' = tr @ take k (zip (d # ds) (p # d # ds))"
      by blast
    have ne: "tr' \<noteq> tr" using k(2) by simp
    show ?thesis using a c ex ne st None by simp
  next
    case (Some err)
    with Cons.prems st have r: "s' = s1" "tr' = tr @ [(d, p)]" "p' = p" "e = Some err"
      by (auto simp: traced_apply)
    have "Suc 0 \<le> length (d # ds) \<and> tr' = tr @ take (Suc 0) (zip (d # ds) (p # d # ds))"
      using r by simp
    then have ex: "\<exists>k. k \<le> length (d # ds) \<and> tr' = tr @ take k (zip (d # ds) (p # d # ds))"
      by blast
    show ?thesis using r st Some ex by simp
  qed
qed

lemma zip_snoc_shift: "zip (xs @ [x]) (p # xs @ [x]) = zip xs (p # xs) @ [(x, last (p # xs))]"
  by (induction xs arbitrary: p) simp_all

lemma walk_traced:
  assumes "walk (traced step) lowers lastDir (s, []) = ((s', tr), e)"
  shows "walk step lowers lastDir s = (s', e) \<and>
         (\<exists>k. 1 \<le> k \<and> k \<le> Suc (length lowers) \<and>
              tr = take k (callsOf (rev lowers @ [lastDir]))) \<and>
         (e = None \<longrightarrow> tr = callsOf (rev lowers @ [lastDir]))"
proof -
  obtain s1 t1 p1 e1 where
    l: "walkList (traced step) (rev lowers) [] (s, []) = ((s1, t1), p1, e1)"
    by (metis prod.exhaust)
  note wl = walkList_traced [OF l]
  from wl have a: "walkList step (rev lowers) [] s = (s1, p1, e1)" by blast
  from wl have "\<exists>k. k \<le> length (rev lowers) \<and> t1 = [] @ take k (zip (rev lowers) ([] # rev lowers))"
    by blast
  then obtain k where k: "k \<le> length lowers" "t1 = take k (zip (rev lowers) ([] # rev lowers))"
    by auto
  from wl have c: "e1 = None \<longrightarrow> t1 = zip (rev lowers) ([] # rev lowers) \<and> p1 = last ([] # rev lowers)"
    by simp
  from wl have n: "e1 \<noteq> None \<longrightarrow> t1 \<noteq> []" by blast
  have z: "callsOf (rev lowers @ [lastDir]) =
             zip (rev lowers) ([] # rev lowers) @ [(lastDir, last ([] # rev lowers))]"
    by (simp only: callsOf_def zip_snoc_shift)
  show ?thesis
  proof (cases e1)
    case (Some err)
    with assms l have r: "s' = s1" "tr = t1" "e = Some err"
      by (simp_all add: walk_def walkLoop_walkList)
    have "k \<noteq> 0" using n Some k(2) by auto
    then have "1 \<le> k \<and> k \<le> Suc (length lowers) \<and> tr = take k (callsOf (rev lowers @ [lastDir]))"
      using k r z by simp
    then show ?thesis using a r Some by (auto simp: walk_def walkLoop_walkList)
  next
    case None
    with c have t1: "t1 = zip (rev lowers) ([] # rev lowers)" and p1: "p1 = last ([] # rev lowers)"
      by simp_all
    obtain s2 r2 where fin: "step lastDir p1 s1 = (s2, r2)" by (cases "step lastDir p1 s1")
    from assms l None fin have r: "s' = s2" "tr = t1 @ [(lastDir, p1)]" "e = r2"
      by (simp_all add: walk_def walkLoop_walkList traced_apply)
    have full: "tr = callsOf (rev lowers @ [lastDir])" using r t1 p1 z by simp
    have "1 \<le> Suc (length lowers) \<and> Suc (length lowers) \<le> Suc (length lowers) \<and>
          tr = take (Suc (length lowers)) (callsOf (rev lowers @ [lastDir]))"
      using full by (simp add: callsOf_def)
    then have ex: "\<exists>k. 1 \<le> k \<and> k \<le> Suc (length lowers) \<and>
                     tr = take k (callsOf (rev lowers @ [lastDir]))"
      by blast
    show ?thesis using a None fin r full ex by (simp add: walk_def walkLoop_walkList)
  qed
qed

text \<open>
  C2. When the probe accepts the active directory, \<open>PrepareOverlayBDSpec\<close> is the walk
  with \<open>doDir\<close> as the per-directory procedure. The calls that walk makes to \<open>doDir\<close>
  (noted by \<open>traced\<close>, which changes nothing else) are a non-empty initial part of:
  the directories of the parent IDs from the last one to the first (the snapshot
  store lists the nearest parent first, so this is oldest to newest), then the
  directory the resolver gives for the active layer; each call has as parent the
  directory of the call before it, the first the empty string. The walk stops at the
  first call that fails; when it reports no error, all the calls were made.
\<close>

theorem PrepareOverlayBDSpec_walk_order:
  assumes "fst (isOverlaybdLayer w dir)"
    and "walk (traced (doDir ds)) (map snPath parentIDs) (snPath ident) (w, []) = ((w', tr), e)"
  shows "PrepareOverlayBDSpec ds parentIDs snPath w ident dir = (w', True, e) \<and>
         (\<exists>k. 1 \<le> k \<and> k \<le> Suc (length parentIDs) \<and>
              tr = take k (callsOf (walkOrder parentIDs snPath ident))) \<and>
         (e = None \<longrightarrow> tr = callsOf (walkOrder parentIDs snPath ident))"
proof -
  have probe: "isOverlaybdLayer w dir = (True, None)"
    using assms(1)
    by (auto simp: isOverlaybdLayer_def split: if_splits prod.splits option.splits)
  from walk_traced [OF assms(2)]
  have a: "walk (doDir ds) (map snPath parentIDs) (snPath ident) w = (w', e)"
    and b: "\<exists>k. 1 \<le> k \<and> k \<le> Suc (length (map snPath parentIDs)) \<and>
               tr = take k (callsOf (rev (map snPath parentIDs) @ [snPath ident]))"
    and c: "e = None \<longrightarrow> tr = callsOf (rev (map snPath parentIDs) @ [snPath ident])"
    by blast+
  show ?thesis using probe a b c by (simp add: PrepareOverlayBDSpec_def walkOrder_def)
qed

section \<open>Preparing a layer that already has a descriptor\<close>

lemma load_read:
  assumes "loadBackingStoreConfig ds w dir = Inr c"
  shows "\<exists>d. os_ReadFile w (overlaybdConfPath dir) = Inr d \<and> jsonUnmarshal ds d = Some c"
  using assms by (auto simp: loadBackingStoreConfig_def split: sum.splits option.splits)

lemma read_stat: "os_ReadFile w p = Inr d \<Longrightarrow> os_Stat w p = Inr (NFile d)"
  by (auto simp: os_ReadFile_def os_Stat_def Let_def split: if_splits option.splits node.splits)

lemma load_exists:
  assumes "loadBackingStoreConfig ds w dir = Inr c"
  shows "pathExists w (overlaybdConfPath dir) = (True, None)"
proof -
  from load_read [OF assms] obtain d where "os_ReadFile w (overlaybdConfPath dir) = Inr d"
    by blast
  from read_stat [OF this] show ?thesis by (simp add: pathExists_def)
qed

lemma doDir_valid:
  assumes "loadBackingStoreConfig ds w dir = Inr c"
  shows "doDir ds dir parent w =
           (case pathExists w (path_Join [dir, zdfsMetaDir]) of
              (b, Some e) \<Rightarrow> (w, Some e)
            | (b, None) \<Rightarrow> if b then updateSpec ds w dir [] else (w, None))"
proof -
  have c3: "path_Join [dir, ''block'', ''config.v1.json''] = overlaybdConfPath dir"
    by (simp add: overlaybdConfPath_def)
  show ?thesis
    by (simp add: doDir_def c3 load_exists [OF assms] split: prod.splits option.splits)
qed

lemma onlyDescriptorWrites_refl: "onlyDescriptorWrites w w dir"
  by (simp add: onlyDescriptorWrites_def)

lemma onlyDescriptorWrites_wrote:
  "wroteDescriptor ds w w' dir c \<Longrightarrow> onlyDescriptorWrites w w' dir"
  by (auto simp: wroteDescriptor_def onlyDescriptorWrites_def isAtomicWriteTo_def
           split: option.splits)

lemma atomicWrite_fail_log:
  assumes "atomicWriteOverlaybdTargetConfig ds w dir c = (w', Some e)"
  shows "w' = w \<or> (\<exists>d. w' = w\<lparr>oplog := oplog w @ [AtomicWriteEv (confKey dir) d]\<rparr>)"
  using assms
  by (auto simp: atomicWriteOverlaybdTargetConfig_def AtomicWriteFile_def confKey_def Let_def
           split: option.splits prod.splits dest!: putFile_fail)

lemma updateSpec_effect:
  assumes "loadBackingStoreConfig ds w dir = Inr c"
    and "updateSpec ds w dir [] = (w1, r1)"
  shows "onlyDescriptorWrites w w1 dir \<and>
         (nodes w1 = nodes w \<or> wroteDescriptor ds w w1 dir (c\<lparr>RecordTracePath := []\<rparr>)) \<and>
         (RecordTracePath c = [] \<longrightarrow> w1 = w \<and> r1 = None) \<and>
         (r1 = None \<longrightarrow> w1 = w \<or>
            (wroteDescriptor ds w w1 dir (c\<lparr>RecordTracePath := []\<rparr>) \<and>
             storedDescriptor ds w1 dir (c\<lparr>RecordTracePath := []\<rparr>)))"
proof (cases "RecordTracePath c = []")
  case True
  then have "w1 = w \<and> r1 = None" using assms by (auto simp: updateSpec_def)
  then show ?thesis by (simp add: onlyDescriptorWrites_refl)
next
  case False
  let ?c = "c\<lparr>RecordTracePath := []\<rparr>"
  from False have u: "atomicWriteOverlaybdTargetConfig ds w dir ?c = (w1, r1)"
    using assms by (auto simp: updateSpec_def)
  show ?thesis
  proof (cases r1)
    case None
    with u have ok: "atomicWriteOverlaybdTargetConfig ds w dir ?c = (w1, None)" by simp
    show ?thesis
      using atomicWrite_wrote [OF ok] atomicWrite_stored [OF ok]
        onlyDescriptorWrites_wrote [OF atomicWrite_wrote [OF ok]] False
      by simp
  next
    case (Some e)
    with u atomicWrite_fail_log [of ds w dir ?c w1 e] False
    show ?thesis
      by (auto simp: onlyDescriptorWrites_def isAtomicWriteTo_def)
  qed
qed

lemma doDir_effect:
  assumes "loadBackingStoreConfig ds w dir = Inr c"
    and "doDir ds dir parent w = (w1, r1)"
  shows "onlyDescriptorWrites w w1 dir \<and>
         (nodes w1 = nodes w \<or> wroteDescriptor ds w w1 dir (c\<lparr>RecordTracePath := []\<rparr>)) \<and>
         (RecordTracePath c = [] \<longrightarrow> w1 = w) \<and>
         (r1 = None \<longrightarrow> w1 = w \<or>
            (pathExists w (path_Join [dir, zdfsMetaDir]) = (True, None) \<and>
             wroteDescriptor ds w w1 dir (c\<lparr>RecordTracePath := []\<rparr>) \<and>
             storedDescriptor ds w1 dir (c\<lparr>RecordTracePath := []\<rparr>)))"
proof -
  obtain b x where pe: "pathExists w (path_Join [dir, zdfsMetaDir]) = (b, x)"
    by (cases "pathExists w (path_Join [dir, zdfsMetaDir])")
  show ?thesis
  proof (cases "x = None \<and> b")
    case True
    then have u: "updateSpec ds w dir [] = (w1, r1)"
      using assms(2) by (simp add: doDir_valid [OF assms(1)] pe)
    show ?thesis using updateSpec_effect [OF assms(1) u] True pe by auto
  next
    case False
    then have "w1 = w" using assms(2)
      by (cases x) (auto simp: doDir_valid [OF assms(1)] pe)
    then show ?thesis by (simp add: onlyDescriptorWrites_refl)
  qed
qed

lemma wrote_stat_other:
  assumes "wroteDescriptor ds w w1 dir c" and "path_Clean q \<noteq> confKey dir"
  shows "os_Stat w1 q = os_Stat w q"
  using assms
  by (auto simp: wroteDescriptor_def os_Stat_def lookupNode_def update_conv' Let_def
           split: option.splits)

lemma stored_load:
  assumes "storedDescriptor ds w1 dir c"
    and "Option.bind (jsonMarshal ds c) (jsonUnmarshal ds) = Some c"
  shows "loadBackingStoreConfig ds w1 dir = Inr c"
  using assms
  by (auto simp: storedDescriptor_def loadBackingStoreConfig_def split: option.splits)

lemma doDir_again:
  assumes ld: "loadBackingStoreConfig ds w dir = Inr c"
    and run: "doDir ds dir parent w = (w1, None)"
    and rt: "Option.bind (jsonMarshal ds (c\<lparr>RecordTracePath := []\<rparr>)) (jsonUnmarshal ds)
               = Some (c\<lparr>RecordTracePath := []\<rparr>)"
  shows "doDir ds dir parentB w1 = (w1, None)"
proof -
  let ?c = "c\<lparr>RecordTracePath := []\<rparr>"
  from doDir_effect [OF ld run]
  consider (same) "w1 = w"
    | (wrote) "pathExists w (path_Join [dir, zdfsMetaDir]) = (True, None)"
        "wroteDescriptor ds w w1 dir ?c" "storedDescriptor ds w1 dir ?c"
    by blast
  then show ?thesis
  proof cases
    case same
    have "doDir ds dir parentB w = doDir ds dir parent w"
      by (simp add: doDir_valid [OF ld])
    then show ?thesis using run same by simp
  next
    case wrote
    have ld1: "loadBackingStoreConfig ds w1 dir = Inr ?c"
      by (rule stored_load [OF wrote(3) rt])
    have "os_Stat w1 (path_Join [dir, zdfsMetaDir]) = os_Stat w (path_Join [dir, zdfsMetaDir])"
      by (rule wrote_stat_other [OF wrote(2) metaKey_not_confKey])
    then have pe: "pathExists w1 (path_Join [dir, zdfsMetaDir]) = (True, None)"
      using wrote(1) by (simp add: pathExists_def)
    show ?thesis
      using ld1 by (simp add: doDir_valid [OF ld1] pe updateSpec_def)
  qed
qed

lemma doDir_fix:
  assumes "validEmptyTrace ds w d"
  shows "\<exists>e. doDir ds d p w = (w, e)"
proof -
  from assms obtain c where ld: "loadBackingStoreConfig ds w d = Inr c"
    and tp: "RecordTracePath c = []"
    by (auto simp: validEmptyTrace_def split: sum.splits)
  obtain w1 r1 where run: "doDir ds d p w = (w1, r1)" by (cases "doDir ds d p w")
  from doDir_effect [OF ld run] tp have "w1 = w" by blast
  with run show ?thesis by simp
qed

lemma walkList_fix:
  assumes "\<forall>d \<in> set ds. \<forall>p. \<exists>e. step d p s = (s, e)"
  shows "\<exists>p' e. walkList step ds p s = (s, p', e)"
  using assms
proof (induction ds arbitrary: p)
  case Nil
  show ?case by simp
next
  case (Cons d ds)
  from Cons.prems have "\<exists>e. step d p s = (s, e)" by simp
  then obtain e where st: "step d p s = (s, e)" by blast
  show ?case
  proof (cases e)
    case None
    from Cons.prems have "\<forall>d \<in> set ds. \<forall>p. \<exists>e. step d p s = (s, e)" by simp
    from Cons.IH [OF this, of d] show ?thesis by (simp add: st None)
  next
    case (Some err)
    then show ?thesis by (simp add: st)
  qed
qed

lemma walk_fix:
  assumes "\<forall>d \<in> set (rev lowers @ [lastDir]). \<forall>p. \<exists>e. step d p s = (s, e)"
  shows "fst (walk step lowers lastDir s) = s"
proof -
  from assms have "\<forall>d \<in> set (rev lowers). \<forall>p. \<exists>e. step d p s = (s, e)" by simp
  then have "\<exists>p' e. walkList step (rev lowers) [] s = (s, p', e)"
    by (rule walkList_fix [where step = step and ds = "rev lowers" and s = s and p = "[]"])
  then obtain p' e where l: "walkList step (rev lowers) [] s = (s, p', e)" by blast
  from assms have "\<exists>e. step lastDir p' s = (s, e)" by simp
  then obtain e2 where f: "step lastDir p' s = (s, e2)" by blast
  show ?thesis by (cases e) (simp_all add: walk_def walkLoop_walkList l f)
qed

text \<open>
  C4. For a layer directory whose descriptor file can be read and parsed as \<open>c\<close>, the
  per-directory procedure does no migration: the only mutating system call it may
  issue is an atomic write to that descriptor file (no directory is made, no file
  copied, nothing renamed), and that write, if made, stores \<open>c\<close> with the trace path
  cleared and changes no other node. When the trace path of \<open>c\<close> is already empty,
  as in every descriptor this program writes, it returns the world it was given.
  After a run that succeeded, a second run (with any parent) returns the world of the
  first unchanged and succeeds, provided the codec decodes what it encoded. For the
  whole preparation: when every directory of the walk has a valid descriptor with an
  empty trace path, \<open>PrepareOverlayBDSpec\<close> returns the world it was given.
\<close>

theorem prepare_idempotent_on_valid_descriptor:
  "(loadBackingStoreConfig ds w dir = Inr c \<longrightarrow>
      (case doDir ds dir parent w of
         (w1, r1) \<Rightarrow>
           onlyDescriptorWrites w w1 dir \<and>
           (nodes w1 = nodes w \<or> wroteDescriptor ds w w1 dir (c\<lparr>RecordTracePath := []\<rparr>)) \<and>
           (RecordTracePath c = [] \<longrightarrow> w1 = w) \<and>
           (r1 = None \<longrightarrow>
            Option.bind (jsonMarshal ds (c\<lparr>RecordTracePath := []\<rparr>)) (jsonUnmarshal ds)
              = Some (c\<lparr>RecordTracePath := []\<rparr>) \<longrightarrow>
            doDir ds dir parentB w1 = (w1, None)))) \<and>
   (list_all (validEmptyTrace ds wa) (walkOrder parentIDs snPath ident) \<longrightarrow>
      fst (PrepareOverlayBDSpec ds parentIDs snPath wa ident adir) = wa)"
proof (intro conjI impI)
  assume ld: "loadBackingStoreConfig ds w dir = Inr c"
  obtain w1 r1 where run: "doDir ds dir parent w = (w1, r1)" by (cases "doDir ds dir parent w")
  have again: "r1 = None \<longrightarrow>
      Option.bind (jsonMarshal ds (c\<lparr>RecordTracePath := []\<rparr>)) (jsonUnmarshal ds)
        = Some (c\<lparr>RecordTracePath := []\<rparr>) \<longrightarrow>
      doDir ds dir parentB w1 = (w1, None)"
    using doDir_again [OF ld, of parent w1 parentB] run by simp
  show "case doDir ds dir parent w of
         (w1, r1) \<Rightarrow>
           onlyDescriptorWrites w w1 dir \<and>
           (nodes w1 = nodes w \<or> wroteDescriptor ds w w1 dir (c\<lparr>RecordTracePath := []\<rparr>)) \<and>
           (RecordTracePath c = [] \<longrightarrow> w1 = w) \<and>
           (r1 = None \<longrightarrow>
            Option.bind (jsonMarshal ds (c\<lparr>RecordTracePath := []\<rparr>)) (jsonUnmarshal ds)
              = Some (c\<lparr>RecordTracePath := []\<rparr>) \<longrightarrow>
            doDir ds dir parentB w1 = (w1, None))"
    using doDir_effect [OF ld run] again by (simp add: run)
next
  assume all: "list_all (validEmptyTrace ds wa) (walkOrder parentIDs snPath ident)"
  then have "\<forall>d \<in> set (rev (map snPath parentIDs) @ [snPath ident]). \<forall>p. \<exists>e. doDir ds d p wa = (wa, e)"
    using doDir_fix by (auto simp: list_all_iff walkOrder_def)
  then have "fst (walk (doDir ds) (map snPath parentIDs) (snPath ident) wa) = wa"
    by (rule walk_fix [where step = "doDir ds" and lowers = "map snPath parentIDs"
                         and lastDir = "snPath ident" and s = wa])
  then show "fst (PrepareOverlayBDSpec ds parentIDs snPath wa ident adir) = wa"
    by (auto simp: PrepareOverlayBDSpec_def split: prod.splits)
qed

section \<open>A migration that fails\<close>

lemma keepsMeta_refl: "keepsMeta w w"
  by (simp add: keepsMeta_def)

lemma keepsMeta_trans: "keepsMeta w w1 \<Longrightarrow> keepsMeta w1 w2 \<Longrightarrow> keepsMeta w w2"
  by (simp add: keepsMeta_def)

lemma keepsMeta_oplog: "keepsMeta w (w\<lparr>oplog := l\<rparr>)"
  by (simp add: keepsMeta_def)

lemma keepsMeta_rand: "keepsMeta w (w\<lparr>rand := l\<rparr>)"
  by (simp add: keepsMeta_def)

lemma putFile_keeps:
  assumes "lastComp k \<noteq> ''zdfsmeta''" and "putFile w k d = (w', r)"
  shows "keepsMeta w w'"
proof (cases r)
  case None
  with assms(2) putFile_ok(1) [of w k d w'] have "w' = w\<lparr>nodes := AList.update k (NFile d) (nodes w)\<rparr>"
    by simp
  then show ?thesis using assms(1) by (auto simp: keepsMeta_def update_conv')
next
  case (Some e)
  with assms(2) putFile_fail [of w k d w' e] show ?thesis by (simp add: keepsMeta_refl)
qed

lemma os_WriteFile_keeps:
  assumes "lastComp (path_Clean p) \<noteq> ''zdfsmeta''" and "os_WriteFile w p d = (w', r)"
  shows "keepsMeta w w'"
proof -
  from assms(2) have "putFile (w\<lparr>oplog := oplog w @ [WriteFileEv (path_Clean p) d]\<rparr>) (path_Clean p) d = (w', r)"
    by (simp add: os_WriteFile_def Let_def)
  from putFile_keeps [OF assms(1) this] keepsMeta_oplog [of w]
  show ?thesis by (rule keepsMeta_trans [rotated])
qed

lemma os_Mkdir_keeps:
  assumes "lastComp (path_Clean p) \<noteq> ''zdfsmeta''" and "os_Mkdir w p = (w', r)"
  shows "keepsMeta w w'"
  using assms
  by (auto simp: os_Mkdir_def Let_def keepsMeta_def update_conv'
           split: if_splits option.splits node.splits)

lemma mkdirTempLoop_keeps:
  assumes "\<And>r. lastComp (path_Clean (prefix @ itoa r)) \<noteq> ''zdfsmeta''"
    and "mkdirTempLoop w prefix rs = (w', x)"
  shows "keepsMeta w w'"
  using assms(2)
proof (induction rs arbitrary: w)
  case Nil
  then show ?case by (simp add: keepsMeta_refl)
next
  case (Cons r rs)
  obtain w1 e where mk: "os_Mkdir (w\<lparr>rand := rs\<rparr>) (prefix @ itoa r) = (w1, e)"
    by (cases "os_Mkdir (w\<lparr>rand := rs\<rparr>) (prefix @ itoa r)")
  have k1: "keepsMeta w w1"
    using keepsMeta_rand [of w rs] os_Mkdir_keeps [OF assms(1) mk] by (rule keepsMeta_trans)
  show ?case
  proof (cases "e = Some EEXIST")
    case True
    with Cons.prems mk have "mkdirTempLoop w1 prefix rs = (w', x)" by (simp add: Let_def)
    from k1 Cons.IH [OF this] show ?thesis by (rule keepsMeta_trans)
  next
    case False
    with Cons.prems mk have "w' = w1" by (cases e) (auto simp: Let_def)
    with k1 show ?thesis by simp
  qed
qed

lemma mkdirTempLoop_name:
  "mkdirTempLoop w prefix rs = (w', Inr name) \<Longrightarrow> \<exists>r. name = prefix @ itoa r"
proof (induction rs arbitrary: w)
  case Nil
  then show ?case by simp
next
  case (Cons r rs)
  then show ?case
    by (auto simp: Let_def split: prod.splits option.splits if_splits)
qed

lemma itoa_noslash: "CHR ''/'' \<notin> set (itoa n)"
proof (induction n rule: itoa.induct)
  case (1 n)
  have dg: "''0123456789'' ! k \<noteq> CHR ''/''" if "k < 10" for k
  proof -
    from that have "''0123456789'' ! k \<in> set ''0123456789''" by (intro nth_mem) simp
    then show ?thesis by auto
  qed
  show ?case
  proof (cases "n < 10")
    case True
    then show ?thesis using dg [of n] by (subst itoa.simps) simp
  next
    case False
    then show ?thesis using 1 dg [of "n mod 10"] by (subst itoa.simps) simp
  qed
qed

lemma tempName_simple: "simpleName (''temp_for_prepare_dadimeta'' @ itoa r)"
  using itoa_noslash [of r] by (simp add: simpleName_def)

lemma lastComp_joinPath:
  assumes "CHR ''/'' \<notin> set n"
  shows "lastComp (joinPath d n) = n"
proof (cases "d \<noteq> [] \<and> last d = CHR ''/''")
  case True
  then have "butlast d @ [CHR ''/''] = d" using append_butlast_last_id [of d] by simp
  then have "butlast d @ CHR ''/'' # n = d @ n"
    by (metis append.assoc append_Cons append_Nil)
  then have "joinPath d n = butlast d @ CHR ''/'' # n"
    using True by (simp add: joinPath_def)
  then show ?thesis using lastComp_append [OF assms] by simp
next
  case False
  then have "joinPath d n = d @ CHR ''/'' # n" by (auto simp: joinPath_def)
  then show ?thesis using lastComp_append [OF assms] by simp
qed

lemma joinPath_append: "joinPath d n @ x = joinPath d (n @ x)"
  by (simp add: joinPath_def)

lemma tempKey_lastComp:
  "lastComp (path_Clean (joinPath d ''temp_for_prepare_dadimeta'' @ itoa r))
     = ''temp_for_prepare_dadimeta'' @ itoa r"
proof (rule lastComp_Clean [OF tempName_simple])
  have "CHR ''/'' \<notin> set (''temp_for_prepare_dadimeta'' @ itoa r)"
    using itoa_noslash [of r] by simp
  from lastComp_joinPath [OF this]
  show "lastComp (joinPath d ''temp_for_prepare_dadimeta'' @ itoa r)
          = ''temp_for_prepare_dadimeta'' @ itoa r"
    by (simp only: joinPath_append)
qed

lemma os_MkdirTemp_keeps:
  assumes "os_MkdirTemp w dir ''temp_for_prepare_dadimeta'' = (w', x)"
  shows "keepsMeta w w'"
proof (rule mkdirTempLoop_keeps)
  show "mkdirTempLoop w (joinPath (if dir = [] then ''/tmp'' else dir) ''temp_for_prepare_dadimeta'')
          (rand w) = (w', x)"
    using assms by (simp add: os_MkdirTemp_def)
next
  fix r
  show "lastComp (path_Clean (joinPath (if dir = [] then ''/tmp'' else dir)
                    ''temp_for_prepare_dadimeta'' @ itoa r)) \<noteq> ''zdfsmeta''"
    by (simp only: tempKey_lastComp) simp
qed

lemma copyFiles_keeps:
  assumes "\<forall>n \<in> set names. simpleName n \<and> n \<noteq> ''zdfsmeta''"
    and "copyFiles w src dst names = (w', r)"
  shows "keepsMeta w w'"
  using assms
proof (induction names arbitrary: w)
  case Nil
  then show ?case by (simp add: keepsMeta_refl)
next
  case (Cons n names)
  from Cons.prems(1) have sn: "simpleName n" and nz: "n \<noteq> ''zdfsmeta''"
    and rest: "\<forall>n \<in> set names. simpleName n \<and> n \<noteq> ''zdfsmeta''"
    by simp_all
  have lc: "lastComp (path_Clean (path_Join [dst, n])) \<noteq> ''zdfsmeta''"
    using lastComp_Clean [OF sn lastComp_Join2 [OF sn]] nz by simp
  show ?case
  proof (cases "os_Stat w (path_Join [src, n]) = Inl ENOENT")
    case True
    with Cons.prems(2) have "copyFiles w src dst names = (w', r)" by (simp add: Let_def)
    from Cons.IH [OF rest this] show ?thesis .
  next
    case False
    show ?thesis
    proof (cases "os_ReadFile w (path_Join [src, n])")
      case (Inl e)
      with False Cons.prems(2) have "w' = w" by (simp add: Let_def)
      then show ?thesis by (simp add: keepsMeta_refl)
    next
      case (Inr d)
      obtain w1 e where wr: "os_WriteFile w (path_Join [dst, n]) d = (w1, e)"
        by (cases "os_WriteFile w (path_Join [dst, n]) d")
      note k1 = os_WriteFile_keeps [OF lc wr]
      show ?thesis
      proof (cases e)
        case None
        with False Inr wr Cons.prems(2) have "copyFiles w1 src dst names = (w', r)"
          by (simp add: Let_def)
        from k1 Cons.IH [OF rest this] show ?thesis by (rule keepsMeta_trans)
      next
        case (Some err)
        with False Inr wr Cons.prems(2) have "w' = w1" by (simp add: Let_def)
        with k1 show ?thesis by simp
      qed
    qed
  qed
qed

lemma copyPulled_keeps:
  assumes "copyPulledZdfsMetaFiles w src dst = (w', r)"
  shows "keepsMeta w w'"
proof (rule copyFiles_keeps)
  show "copyFiles w src dst
          [iNewFormat, zdfsChecksumFile, zdfsOssurlFile, zdfsOssDataSizeFile, zdfsOssTypeFile,
           zdfsTrace] = (w', r)"
    using assms by (simp add: copyPulledZdfsMetaFiles_def)
  show "\<forall>n \<in> set [iNewFormat, zdfsChecksumFile, zdfsOssurlFile, zdfsOssDataSizeFile,
                   zdfsOssTypeFile, zdfsTrace]. simpleName n \<and> n \<noteq> ''zdfsmeta''"
    by (simp add: name_defs simpleName_def)
qed

lemma os_Rename_fail_keeps:
  assumes "os_Rename w a b = (w', Some e)"
  shows "keepsMeta w w'"
  using assms
  by (auto simp: os_Rename_def Let_def keepsMeta_def
           split: if_splits option.splits node.splits prod.splits)

lemma migrateMeta_fail_keeps:
  assumes "migrateMeta w dir = (w', Some e)"
  shows "keepsMeta w w'"
proof -
  obtain w1 x where mk: "os_MkdirTemp w dir ''temp_for_prepare_dadimeta'' = (w1, x)"
    by (cases "os_MkdirTemp w dir ''temp_for_prepare_dadimeta''")
  note k1 = os_MkdirTemp_keeps [OF mk]
  show ?thesis
  proof (cases x)
    case (Inl err)
    with assms mk have "w' = w1" by (simp add: migrateMeta_def)
    with k1 show ?thesis by simp
  next
    case (Inr tmpDir)
    obtain w2 r2 where c1: "copyPulledZdfsMetaFiles w1 (path_Join [dir, ''fs'']) tmpDir = (w2, r2)"
      by (cases "copyPulledZdfsMetaFiles w1 (path_Join [dir, ''fs'']) tmpDir")
    note k2 = keepsMeta_trans [OF k1 copyPulled_keeps [OF c1]]
    show ?thesis
    proof (cases r2)
      case (Some err)
      with assms mk Inr c1 have "w' = w2" by (simp add: migrateMeta_def Let_def)
      with k2 show ?thesis by simp
    next
      case None
      obtain w3 r3 where
        c2: "copyPulledZdfsMetaFiles w2 (path_Join [dir, ''fs'']) (path_Join [dir, ''block'']) = (w3, r3)"
        by (cases "copyPulledZdfsMetaFiles w2 (path_Join [dir, ''fs'']) (path_Join [dir, ''block''])")
      note k3 = keepsMeta_trans [OF k2 copyPulled_keeps [OF c2]]
      show ?thesis
      proof (cases r3)
        case (Some err)
        with assms mk Inr c1 None c2 have "w' = w3" by (simp add: migrateMeta_def Let_def)
        with k3 show ?thesis by simp
      next
        case n3: None
        obtain w4 r4 where rn: "os_Rename w3 tmpDir (path_Join [dir, zdfsMetaDir]) = (w4, r4)"
          by (cases "os_Rename w3 tmpDir (path_Join [dir, zdfsMetaDir])")
        from assms mk Inr c1 None c2 n3 rn obtain err where r4: "r4 = Some err" and w4: "w' = w4"
          by (cases r4) (auto simp: migrateMeta_def Let_def)
        from rn r4 have "keepsMeta w3 w4" by (simp add: os_Rename_fail_keeps)
        with k3 w4 show ?thesis using keepsMeta_trans by blast
      qed
    qed
  qed
qed

lemma keepsMeta_stat:
  assumes "keepsMeta w w'" and "lastComp (path_Clean p) = ''zdfsmeta''"
  shows "os_Stat w' p = os_Stat w p"
  using assms by (simp add: keepsMeta_def os_Stat_def lookupNode_def Let_def)

text \<open>
  C3, as the code has it. When the metadata directory of a layer does not exist and
  the migration (the temporary directory, the two copies, the rename) fails, the
  metadata directory still does not exist afterwards: nothing was put in its place.
  Nothing else is undone: the temporary directory and the files already copied, also
  those copied straight into the \<open>block\<close> directory, stay where they are. When no
  descriptor exists either, that failure is the result of the per-directory procedure.
\<close>

theorem failed_migration_leaves_no_zdfsmeta:
  assumes "os_Stat w (path_Join [dir, zdfsMetaDir]) = Inl ENOENT"
    and "migrateMeta w dir = (w', Some e)"
  shows "os_Stat w' (path_Join [dir, zdfsMetaDir]) = Inl ENOENT \<and>
         doDir ds dir parent w =
           (if fst (pathExists w (overlaybdConfPath dir)) then (w, None) else (w', Some e))"
proof
  show "os_Stat w' (path_Join [dir, zdfsMetaDir]) = Inl ENOENT"
    using keepsMeta_stat [OF migrateMeta_fail_keeps [OF assms(2)] metaKey_lastComp] assms(1)
    by simp
  show "doDir ds dir parent w =
          (if fst (pathExists w (overlaybdConfPath dir)) then (w, None) else (w', Some e))"
    using assms by (simp add: doDir_def pathExists_def overlaybdConfPath_def)
qed

section \<open>The size of the blob\<close>

lemma parseUintLoop_bad:
  "\<not> list_all isDigit s \<Longrightarrow>
     parseUintLoop n s = (0, Some SyntaxErr) \<or> parseUintLoop n s = (- 1, Some RangeErr)"
  by (induction s arbitrary: n) (auto simp: Let_def)

lemma ParseUint_bad:
  "\<not> numeric str \<Longrightarrow>
     strconv_ParseUint str = (0, Some SyntaxErr) \<or> strconv_ParseUint str = (- 1, Some RangeErr)"
  using parseUintLoop_bad [of str 0] by (auto simp: numeric_def strconv_ParseUint_def)

lemma makeConfig_size:
  assumes "makeConfig ds w dir parent = (w', None)"
  shows "\<exists>c ls digest. storedDescriptor ds w' dir c \<and>
           Lowers c = ls @ [ownLower dir digest (fst (GetBlobSize w (path_Join [dir, ''block''])))]"
proof -
  from assms obtain repo digest where
    cs: "constructSpec ds w dir parent repo digest (fst (GetBlobSize w (path_Join [dir, ''block''])))
           [] = (w', None)"
    by (auto simp: makeConfig_def Let_def split: sum.splits prod.splits)
  from constructSpec_cases [OF cs] obtain ls u where
    wr: "atomicWriteOverlaybdTargetConfig ds w dir
           \<lparr>RepoBlobURL = u,
            Lowers = ls @ [ownLower dir digest (fst (GetBlobSize w (path_Join [dir, ''block''])))],
            ResultFile = overlaybdInitDebuglogPath dir, RecordTracePath = []\<rparr> = (w', None)"
    by blast
  from atomicWrite_stored [OF wr] show ?thesis by fastforce
qed

text \<open>
  C6, as the code has it. \<open>GetBlobSize\<close> returns an error when the size marker cannot
  be read (with the value 0) and when its trimmed content is not a non-empty string of
  digits (with the value 0, or with all 64 bits set when the digits before the
  offending character already overflow). The descriptor-synthesis step drops that
  error: whenever it succeeds, the entry it writes for the layer has as size the value
  \<open>GetBlobSize\<close> returned, whether or not an error came with it.
\<close>

theorem size_error_is_discarded:
  "(os_ReadFile w (path_Join [d, zdfsOssDataSizeFile]) = Inl e \<longrightarrow>
      GetBlobSize w d = (0, Some (SysErr e))) \<and>
   (os_ReadFile w (path_Join [d, zdfsOssDataSizeFile]) = Inr content \<longrightarrow>
    \<not> numeric (strings_Trim content [CHR '' '', CHR 0x0A]) \<longrightarrow>
      GetBlobSize w d = (0, Some SyntaxErr) \<or> GetBlobSize w d = (- 1, Some RangeErr)) \<and>
   (makeConfig ds wm dir parent = (wm', None) \<longrightarrow>
      (\<exists>c ls digest. storedDescriptor ds wm' dir c \<and>
         Lowers c = ls @ [ownLower dir digest (fst (GetBlobSize wm (path_Join [dir, ''block''])))]))"
proof (intro conjI impI)
  assume "os_ReadFile w (path_Join [d, zdfsOssDataSizeFile]) = Inl e"
  then show "GetBlobSize w d = (0, Some (SysErr e))"
    by (simp add: GetBlobSize_def getTrimStringFromFile_def)
next
  assume "os_ReadFile w (path_Join [d, zdfsOssDataSizeFile]) = Inr content"
    and "\<not> numeric (strings_Trim content [CHR '' '', CHR 0x0A])"
  then show "GetBlobSize w d = (0, Some SyntaxErr) \<or> GetBlobSize w d = (- 1, Some RangeErr)"
    using ParseUint_bad [of "strings_Trim content [CHR '' '', CHR 0x0A]"]
    by (simp add: GetBlobSize_def getTrimStringFromFile_def)
next
  assume "makeConfig ds wm dir parent = (wm', None)"
  then show "\<exists>c ls digest. storedDescriptor ds wm' dir c \<and>
         Lowers c = ls @ [ownLower dir digest (fst (GetBlobSize wm (path_Join [dir, ''block''])))]"
    by (rule makeConfig_size)
qed

section \<open>The examples, evaluated\<close>

lemma confPath_a: "overlaybdConfPath ''/a'' = ''/a/block/config.v1.json''"
  by (simp add: overlaybdConfPath_def path_defs)

lemma confPath_b: "overlaybdConfPath ''/b'' = ''/b/block/config.v1.json''"
  by (simp add: overlaybdConfPath_def path_defs)

lemma clean_conf_a: "path_Clean ''/a/block/config.v1.json'' = ''/a/block/config.v1.json''"
  by (simp add: path_defs)

lemma clean_conf_b: "path_Clean ''/b/block/config.v1.json'' = ''/b/block/config.v1.json''"
  by (simp add: path_defs)

lemma debuglog_a: "overlaybdInitDebuglogPath ''/a'' = ''/a/zdfsmeta/init-debug.log''"
  by (simp add: overlaybdInitDebuglogPath_def name_defs path_defs)

lemma debuglog_b: "overlaybdInitDebuglogPath ''/b'' = ''/b/zdfsmeta/init-debug.log''"
  by (simp add: overlaybdInitDebuglogPath_def name_defs path_defs)

lemma block_a: "path_Join [''/a'', ''block''] = ''/a/block''"
  by (simp add: path_defs)

lemma block_b: "path_Join [''/b'', ''block''] = ''/b/block''"
  by (simp add: path_defs)

lemma exDesc_eq:
  "exDesc = \<lparr>RepoBlobURL = ''u'',
              Lowers = [\<lparr>File = ''/opt/overlaybd/baselayers/.commit'', Digest = [], Size = 0,
                          Dir = []\<rparr>,
                        \<lparr>File = [], Digest = ''sha256:ab'', Size = 42, Dir = ''/a/block''\<rparr>],
              ResultFile = ''/a/zdfsmeta/init-debug.log'', RecordTracePath = ''t''\<rparr>"
  by (simp add: exDesc_def baseDescriptor_def baseLayerRef_def ownLower_def debuglog_a block_a
                overlaybdBaseLayer_def)

lemma exDesc_roundtrip: "Option.bind (demoMarshal exDesc) demoUnmarshal = Some exDesc"
  by (simp add: exDesc_eq codec_defs)

lemma exWorld_load: "loadBackingStoreConfig demoDeps exWorld ''/a'' = Inr exDesc"
  using exDesc_roundtrip
  by (simp add: loadBackingStoreConfig_def confPath_a clean_conf_a exWorld_def os_ReadFile_def
                lookupNode_def demoDeps_def demoMarshal_def)

theorem updateSpec_changes_only_trace_path_witness:
  "loadBackingStoreConfig demoDeps exWorld ''/a'' = Inr exDesc \<and>
   updateSpec demoDeps exWorld ''/a'' ''t'' = (exWorld, None) \<and>
   (case updateSpec demoDeps exWorld ''/a'' [] of
      (w', None) \<Rightarrow> wroteDescriptor demoDeps exWorld w' ''/a'' (exDesc\<lparr>RecordTracePath := []\<rparr>)
    | (w', Some e) \<Rightarrow> nodes w' = nodes exWorld)"
proof -
  have tp: "RecordTracePath exDesc = ''t''" by (simp add: exDesc_def baseDescriptor_def)
  have same: "updateSpec demoDeps exWorld ''/a'' ''t'' = (exWorld, None)"
    using updateSpec_changes_only_trace_path [OF exWorld_load, of "''t''"] tp by simp
  have other: "case updateSpec demoDeps exWorld ''/a'' [] of
      (w', None) \<Rightarrow> wroteDescriptor demoDeps exWorld w' ''/a'' (exDesc\<lparr>RecordTracePath := []\<rparr>)
    | (w', Some e) \<Rightarrow> nodes w' = nodes exWorld"
    using updateSpec_changes_only_trace_path [OF exWorld_load, of "[]"] tp
    by (auto split: prod.splits option.splits)
  show ?thesis using exWorld_load same other by simp
qed

lemma exBaseRun_ok: "snd exBaseRun = None"
  by (simp add: exBaseRun_def constructSpec_def atomicWriteOverlaybdTargetConfig_def demoDeps_def
                demoMarshal_def confPath_a clean_conf_a AtomicWriteFile_def putFile_def
                lookupNode_def parentOf_def exEmpty_def Let_def)

lemma exBaseRun_eq:
  "constructSpec demoDeps exEmpty ''/a'' [] ''u'' ''sha256:ab'' 42 [] = (fst exBaseRun, None)"
  using exBaseRun_ok by (simp add: exBaseRun_def prod_eq_iff)

lemma exBase_roundtrip:
  "Option.bind (jsonMarshal demoDeps (baseDescriptor ''/a'' ''u'' ''sha256:ab'' 42 []))
     (jsonUnmarshal demoDeps) = Some (baseDescriptor ''/a'' ''u'' ''sha256:ab'' 42 [])"
  by (simp add: demoDeps_def baseDescriptor_def baseLayerRef_def ownLower_def debuglog_a block_a
                overlaybdBaseLayer_def codec_defs)

lemma exChildRun_ok: "snd exChildRun = None"
proof -
  let ?c0 = "baseDescriptor ''/a'' ''u'' ''sha256:ab'' 42 []"
  have w: "wroteDescriptor demoDeps exEmpty (fst exBaseRun) ''/a'' ?c0"
    by (rule atomicWrite_wrote [OF constructSpec_base [OF exBaseRun_eq]])
  have st: "storedDescriptor demoDeps (fst exBaseRun) ''/a'' ?c0"
    by (rule atomicWrite_stored [OF constructSpec_base [OF exBaseRun_eq]])
  have ld: "loadBackingStoreConfig demoDeps (fst exBaseRun) ''/a'' = Inr ?c0"
    using st exBase_roundtrip
    by (auto simp: storedDescriptor_def loadBackingStoreConfig_def split: option.splits)
  show ?thesis using w ld
    by (auto simp add: exChildRun_def constructSpec_def atomicWriteOverlaybdTargetConfig_def
          wroteDescriptor_def confKey_def confPath_a confPath_b clean_conf_a clean_conf_b
          AtomicWriteFile_def putFile_def lookupNode_def parentOf_def exEmpty_def Let_def
          demoDeps_def demoMarshal_def update_conv' split: option.splits)
qed

lemma exChildRun_eq:
  "constructSpec demoDeps (fst exBaseRun) ''/b'' ''/a'' [] ''sha256:cd'' 7 [] = (fst exChildRun, None)"
  using exChildRun_ok by (simp add: exChildRun_def prod_eq_iff)

theorem constructSpec_lowers_chain_witness:
  "constructSpec demoDeps exEmpty ''/a'' [] ''u'' ''sha256:ab'' 42 [] = (fst exBaseRun, None) \<and>
   constructSpec demoDeps (fst exBaseRun) ''/b'' ''/a'' [] ''sha256:cd'' 7 [] = (fst exChildRun, None) \<and>
   (\<exists>ls c. inherited demoDeps exEmpty [] = Some ls \<and> storedDescriptor demoDeps (fst exBaseRun) ''/a'' c \<and>
            Lowers c = ls @ [ownLower ''/a'' ''sha256:ab'' 42]) \<and>
   (\<exists>c. storedDescriptor demoDeps (fst exChildRun) ''/b'' c \<and>
        Lowers c = [baseLayerRef, ownLower ''/a'' ''sha256:ab'' 42, ownLower ''/b'' ''sha256:cd'' 7])"
proof -
  note inst = constructSpec_lowers_chain
    [where ds = demoDeps and w = exEmpty and dir = "''/a''" and parent = "[]" and repo = "''u''"
       and digest = "''sha256:ab''" and sz = 42 and tp = "[]" and w' = "fst exBaseRun"
       and baseDir = "''/a''" and wb = exEmpty and rb = "''u''" and db = "''sha256:ab''"
       and sb = 42 and tb = "[]" and wb' = "fst exBaseRun" and wk = "fst exBaseRun"
       and childDir = "''/b''" and rc = "[]" and dc = "''sha256:cd''" and sc = 7
       and tc = "[]" and wc = "fst exChildRun"]
  have ne: "''/a'' \<noteq> []" by simp
  from inst have a: "\<exists>ls c. inherited demoDeps exEmpty [] = Some ls \<and>
      storedDescriptor demoDeps (fst exBaseRun) ''/a'' c \<and>
      Lowers c = ls @ [ownLower ''/a'' ''sha256:ab'' 42]"
    using exBaseRun_eq by blast
  from inst have b: "\<exists>c. storedDescriptor demoDeps (fst exChildRun) ''/b'' c \<and>
      Lowers c = [baseLayerRef, ownLower ''/a'' ''sha256:ab'' 42, ownLower ''/b'' ''sha256:cd'' 7]"
    using ne exBaseRun_eq exBase_roundtrip exChildRun_eq by blast
  show ?thesis using exBaseRun_eq exChildRun_eq a b by blast
qed

lemma meta_a: "path_Join [''/a'', zdfsMetaDir] = ''/a/zdfsmeta''"
  by (simp add: zdfsMetaDir_def path_defs)

lemma meta_b: "path_Join [''/b'', zdfsMetaDir] = ''/b/zdfsmeta''"
  by (simp add: zdfsMetaDir_def path_defs)

lemma clean_meta_a: "path_Clean ''/a/zdfsmeta'' = ''/a/zdfsmeta''"
  by (simp add: path_defs)

lemma clean_meta_b: "path_Clean ''/b/zdfsmeta'' = ''/b/zdfsmeta''"
  by (simp add: path_defs)

lemma conf3_a: "path_Join [''/a'', ''block'', ''config.v1.json''] = ''/a/block/config.v1.json''"
  by (simp add: path_defs)

lemma conf3_b: "path_Join [''/b'', ''block'', ''config.v1.json''] = ''/b/block/config.v1.json''"
  by (simp add: path_defs)

lemmas ex_paths = confPath_a confPath_b clean_conf_a clean_conf_b meta_a meta_b clean_meta_a
  clean_meta_b conf3_a conf3_b block_a block_b debuglog_a debuglog_b

lemma exTwo_doDir_a: "doDir demoDeps ''/a'' p exTwo = (exTwo, None)"
  by (simp add: doDir_def pathExists_def os_Stat_def lookupNode_def ex_paths exTwo_def)

lemma exTwo_doDir_b: "doDir demoDeps ''/b'' p exTwo = (exTwo, None)"
  by (simp add: doDir_def pathExists_def os_Stat_def lookupNode_def ex_paths exTwo_def)

lemma exTwo_probe: "isOverlaybdLayer exTwo ''/b'' = (True, None)"
  by (simp add: isOverlaybdLayer_def pathExists_def os_Stat_def lookupNode_def ex_paths exTwo_def)

lemma exTwo_walk:
  "walk (traced (doDir demoDeps)) (map exSnPath [''a'']) (exSnPath ''b'') (exTwo, [])
     = ((exTwo, [(''/a'', []), (''/b'', ''/a'')]), None)"
  by (simp add: walk_def walkLoop_walkList exSnPath_def traced_apply exTwo_doDir_a exTwo_doDir_b)

theorem PrepareOverlayBDSpec_walk_order_witness:
  "fst (isOverlaybdLayer exTwo ''/b'') \<and>
   walk (traced (doDir demoDeps)) (map exSnPath [''a'']) (exSnPath ''b'') (exTwo, [])
     = ((exTwo, [(''/a'', []), (''/b'', ''/a'')]), None) \<and>
   PrepareOverlayBDSpec demoDeps [''a''] exSnPath exTwo ''b'' ''/b'' = (exTwo, True, None) \<and>
   [(''/a'', []), (''/b'', ''/a'')] = callsOf (walkOrder [''a''] exSnPath ''b'')"
proof -
  have p: "fst (isOverlaybdLayer exTwo ''/b'')" by (simp add: exTwo_probe)
  from PrepareOverlayBDSpec_walk_order [OF p exTwo_walk]
  show ?thesis using p exTwo_walk by simp
qed

lemma exWorldM_load: "loadBackingStoreConfig demoDeps exWorldM ''/a'' = Inr exDesc"
  using exDesc_roundtrip
  by (simp add: loadBackingStoreConfig_def confPath_a clean_conf_a exWorldM_def os_ReadFile_def
                lookupNode_def demoDeps_def demoMarshal_def)

lemma exDesc_cleared: "exDesc\<lparr>RecordTracePath := []\<rparr> = baseDescriptor ''/a'' ''u'' ''sha256:ab'' 42 []"
  by (simp add: exDesc_def baseDescriptor_def)

lemma exMetaRun_ok: "snd exMetaRun = None"
proof -
  have pe: "pathExists exWorldM (path_Join [''/a'', zdfsMetaDir]) = (True, None)"
    by (simp add: pathExists_def os_Stat_def lookupNode_def ex_paths exWorldM_def)
  have tp: "RecordTracePath exDesc \<noteq> []" by (simp add: exDesc_def baseDescriptor_def)
  have d: "exMetaRun = updateSpec demoDeps exWorldM ''/a'' []"
    by (simp add: exMetaRun_def doDir_valid [OF exWorldM_load] pe)
  have u: "updateSpec demoDeps exWorldM ''/a'' [] =
             atomicWriteOverlaybdTargetConfig demoDeps exWorldM ''/a'' (exDesc\<lparr>RecordTracePath := []\<rparr>)"
    using tp by (auto simp: updateSpec_def exWorldM_load)
  have "snd (atomicWriteOverlaybdTargetConfig demoDeps exWorldM ''/a''
               (exDesc\<lparr>RecordTracePath := []\<rparr>)) = None"
    by (simp add: atomicWriteOverlaybdTargetConfig_def demoDeps_def demoMarshal_def ex_paths
          AtomicWriteFile_def putFile_def lookupNode_def parentOf_def exWorldM_def Let_def)
  then show ?thesis by (simp add: d u)
qed

lemma exBaseRun_load:
  "loadBackingStoreConfig demoDeps (fst exBaseRun) ''/a'' = Inr (baseDescriptor ''/a'' ''u'' ''sha256:ab'' 42 [])"
  by (rule stored_load [OF atomicWrite_stored [OF constructSpec_base [OF exBaseRun_eq]]
                           exBase_roundtrip])

theorem prepare_idempotent_on_valid_descriptor_witness:
  "loadBackingStoreConfig demoDeps exWorldM ''/a'' = Inr exDesc \<and>
   snd exMetaRun = None \<and>
   onlyDescriptorWrites exWorldM (fst exMetaRun) ''/a'' \<and>
   doDir demoDeps ''/a'' ''/x'' (fst exMetaRun) = (fst exMetaRun, None) \<and>
   loadBackingStoreConfig demoDeps (fst exBaseRun) ''/a''
     = Inr (baseDescriptor ''/a'' ''u'' ''sha256:ab'' 42 []) \<and>
   fst (doDir demoDeps ''/a'' [] (fst exBaseRun)) = fst exBaseRun \<and>
   list_all (validEmptyTrace demoDeps (fst exBaseRun)) (walkOrder [] exSnPath ''a'') \<and>
   fst (PrepareOverlayBDSpec demoDeps [] exSnPath (fst exBaseRun) ''a'' ''/a'') = fst exBaseRun"
proof -
  note inst0 = prepare_idempotent_on_valid_descriptor
    [where ds = demoDeps and w = "fst exBaseRun" and dir = "''/a''"
       and c = "baseDescriptor ''/a'' ''u'' ''sha256:ab'' 42 []" and parent = "[]"
       and parentB = "[]" and wa = exEmpty and parentIDs = "[]" and snPath = exSnPath
       and ident = "''a''" and adir = "''/a''"]
  have tp0: "RecordTracePath (baseDescriptor ''/a'' ''u'' ''sha256:ab'' 42 []) = []"
    by (simp add: baseDescriptor_def)
  from inst0 [THEN conjunct1, THEN mp, OF exBaseRun_load] tp0
  have z: "fst (doDir demoDeps ''/a'' [] (fst exBaseRun)) = fst exBaseRun"
    by (cases "doDir demoDeps ''/a'' [] (fst exBaseRun)") simp
  note inst = prepare_idempotent_on_valid_descriptor
    [where ds = demoDeps and w = exWorldM and dir = "''/a''" and c = exDesc and parent = "[]"
       and parentB = "''/x''" and wa = "fst exBaseRun" and parentIDs = "[]"
       and snPath = exSnPath and ident = "''a''" and adir = "''/a''"]
  have run: "doDir demoDeps ''/a'' [] exWorldM = (fst exMetaRun, None)"
    using exMetaRun_ok by (simp add: exMetaRun_def prod_eq_iff)
  have rt: "Option.bind (jsonMarshal demoDeps (exDesc\<lparr>RecordTracePath := []\<rparr>))
              (jsonUnmarshal demoDeps) = Some (exDesc\<lparr>RecordTracePath := []\<rparr>)"
    using exBase_roundtrip by (simp add: exDesc_cleared)
  have v: "list_all (validEmptyTrace demoDeps (fst exBaseRun)) (walkOrder [] exSnPath ''a'')"
    by (simp add: walkOrder_def exSnPath_def validEmptyTrace_def exBaseRun_load
                  baseDescriptor_def)
  from inst exWorldM_load run rt
  have a: "onlyDescriptorWrites exWorldM (fst exMetaRun) ''/a''"
    and b: "doDir demoDeps ''/a'' ''/x'' (fst exMetaRun) = (fst exMetaRun, None)"
    by simp_all
  from inst v
  have c: "fst (PrepareOverlayBDSpec demoDeps [] exSnPath (fst exBaseRun) ''a'' ''/a'') = fst exBaseRun"
    by blast
  show ?thesis using exWorldM_load exMetaRun_ok a b v c z exBaseRun_load by simp
qed

lemma exLegacy_migrate: "migrateMeta exLegacy ''/a'' = (exLegacyAfter, Some (SysErr EISDIR))"
  by (simp add: migrateMeta_def os_MkdirTemp_def joinPath_def itoa.simps os_Mkdir_def
        copyPulledZdfsMetaFiles_def name_defs os_Stat_def os_ReadFile_def os_WriteFile_def
        putFile_def path_defs lookupNode_def parentOf_def exLegacy_def exLegacyAfter_def Let_def)

lemma exLegacy_no_meta: "os_Stat exLegacy (path_Join [''/a'', zdfsMetaDir]) = Inl ENOENT"
  by (simp add: os_Stat_def lookupNode_def ex_paths exLegacy_def)

lemma exLegacy_no_conf: "pathExists exLegacy (overlaybdConfPath ''/a'') = (False, None)"
  by (simp add: pathExists_def os_Stat_def lookupNode_def ex_paths exLegacy_def)

theorem failed_migration_leaves_no_zdfsmeta_witness:
  "os_Stat exLegacy (path_Join [''/a'', zdfsMetaDir]) = Inl ENOENT \<and>
   migrateMeta exLegacy ''/a'' = (exLegacyAfter, Some (SysErr EISDIR)) \<and>
   os_Stat exLegacyAfter (path_Join [''/a'', zdfsMetaDir]) = Inl ENOENT \<and>
   doDir demoDeps ''/a'' [] exLegacy = (exLegacyAfter, Some (SysErr EISDIR))"
  using failed_migration_leaves_no_zdfsmeta [OF exLegacy_no_meta exLegacy_migrate, of demoDeps "[]"]
    exLegacy_no_meta exLegacy_migrate exLegacy_no_conf
  by simp

text \<open>
  C3, as the specification states it, fails. The layer \<open>/a\<close> of \<open>exLegacy\<close> has two
  metadata files; in its \<open>block\<close> directory the name of the second is a directory,
  so that copy fails. The per-directory procedure fails before the rename, and
  afterwards the \<open>block\<close> directory holds the first file and not the second, and
  the temporary directory is still there with both: a partly applied migration that
  anyone can see.
\<close>

theorem failed_migration_partial_state_counterexample:
  "doDir demoDeps ''/a'' [] exLegacy = (exLegacyAfter, Some (SysErr EISDIR)) \<and>
   os_Stat exLegacy ''/a/block/.type'' = Inl ENOENT \<and>
   os_Stat exLegacyAfter ''/a/block/.type'' = Inr (NFile ''oss'') \<and>
   os_Stat exLegacyAfter ''/a/block/.trace'' = Inr NDir \<and>
   os_Stat exLegacy ''/a/temp_for_prepare_dadimeta7'' = Inl ENOENT \<and>
   os_Stat exLegacyAfter ''/a/temp_for_prepare_dadimeta7'' = Inr NDir \<and>
   os_Stat exLegacyAfter ''/a/temp_for_prepare_dadimeta7/.trace'' = Inr (NFile ''T'') \<and>
   os_Stat exLegacyAfter ''/a/zdfsmeta'' = Inl ENOENT"
proof -
  have run: "doDir demoDeps ''/a'' [] exLegacy = (exLegacyAfter, Some (SysErr EISDIR))"
    using exLegacy_no_meta exLegacy_no_conf
    by (simp add: doDir_def pathExists_def exLegacy_migrate overlaybdConfPath_def)
  have obs: "os_Stat exLegacy ''/a/block/.type'' = Inl ENOENT"
    "os_Stat exLegacyAfter ''/a/block/.type'' = Inr (NFile ''oss'')"
    "os_Stat exLegacyAfter ''/a/block/.trace'' = Inr NDir"
    "os_Stat exLegacy ''/a/temp_for_prepare_dadimeta7'' = Inl ENOENT"
    "os_Stat exLegacyAfter ''/a/temp_for_prepare_dadimeta7'' = Inr NDir"
    "os_Stat exLegacyAfter ''/a/temp_for_prepare_dadimeta7/.trace'' = Inr (NFile ''T'')"
    "os_Stat exLegacyAfter ''/a/zdfsmeta'' = Inl ENOENT"
    by (simp_all add: os_Stat_def lookupNode_def path_defs exLegacy_def exLegacyAfter_def)
  show ?thesis using run obs by simp
qed

lemma url_a: "path_Join [''/a/block'', zdfsOssurlFile] = ''/a/block/.oss_url''"
  by (simp add: name_defs path_defs)

lemma size_a: "path_Join [''/a/block'', zdfsOssDataSizeFile] = ''/a/block/.data_size''"
  by (simp add: name_defs path_defs)

lemma ref2_a: "path_Join [''/a'', path_Join [''/a'', ''image_ref'']] = ''/a/a/image_ref''"
  by (simp add: path_defs)

lemma ref_a: "path_Join [''/a'', ''image_ref''] = ''/a/image_ref''"
  by (simp add: path_defs)

lemma ref2b_a: "path_Join [''/a'', ''/a/image_ref''] = ''/a/a/image_ref''"
  by (simp add: path_defs)

lemma clean_url_a: "path_Clean ''/a/block/.oss_url'' = ''/a/block/.oss_url''"
  by (simp add: path_defs)

lemma clean_size_a: "path_Clean ''/a/block/.data_size'' = ''/a/block/.data_size''"
  by (simp add: path_defs)

lemma clean_ref2_a: "path_Clean ''/a/a/image_ref'' = ''/a/a/image_ref''"
  by (simp add: path_defs)

lemma clean_ref_a: "path_Clean ''/a/image_ref'' = ''/a/image_ref''"
  by (simp add: path_defs)

lemmas ex_paths2 = url_a size_a ref2_a ref2b_a ref_a clean_url_a clean_size_a clean_ref2_a clean_ref_a

lemma exNoSize_read: "os_ReadFile exNoSize (path_Join [''/a/block'', zdfsOssDataSizeFile]) = Inl ENOENT"
  by (simp add: os_ReadFile_def lookupNode_def ex_paths2 exNoSize_def)

lemma exNoSize_size: "GetBlobSize exNoSize ''/a/block'' = (0, Some (SysErr ENOENT))"
  by (simp add: GetBlobSize_def getTrimStringFromFile_def exNoSize_read)

lemma exNoSize_digest: "GetBlobRepoDigest exNoSize ''/a/block'' = Inr (''r'', ''sha256:ab'')"
  by (simp add: GetBlobRepoDigest_def getTrimStringFromFile_def os_ReadFile_def lookupNode_def
        ex_paths2 exNoSize_def strings_Trim_def strings_LastIndexSlash_def Let_def)

lemma exNoSizeRun_eq:
  "exNoSizeRun = constructSpec demoDeps exNoSize ''/a'' [] ''r'' ''sha256:ab'' 0 []"
proof -
  have pe: "pathExists exNoSize ''/a/a/image_ref'' = (False, None)"
    by (simp add: pathExists_def os_Stat_def lookupNode_def ex_paths2 exNoSize_def)
  show ?thesis
    by (simp add: exNoSizeRun_def makeConfig_def block_a exNoSize_digest exNoSize_size ex_paths2
          pe Let_def)
qed

lemma exNoSizeRun_ok: "snd exNoSizeRun = None"
  by (simp add: exNoSizeRun_eq constructSpec_def atomicWriteOverlaybdTargetConfig_def
        demoDeps_def demoMarshal_def confPath_a clean_conf_a AtomicWriteFile_def putFile_def
        lookupNode_def parentOf_def exNoSize_def Let_def)

lemma exNoSizeRun_stored:
  "storedDescriptor demoDeps (fst exNoSizeRun) ''/a'' (baseDescriptor ''/a'' ''r'' ''sha256:ab'' 0 [])"
proof -
  have "constructSpec demoDeps exNoSize ''/a'' [] ''r'' ''sha256:ab'' 0 [] = (fst exNoSizeRun, None)"
    using exNoSizeRun_ok by (simp add: exNoSizeRun_eq prod_eq_iff)
  from atomicWrite_stored [OF constructSpec_base [OF this]] show ?thesis .
qed

lemma exBadSize_read:
  "os_ReadFile exBadSize (path_Join [''/a/block'', zdfsOssDataSizeFile]) = Inr ''4x''"
  by (simp add: os_ReadFile_def lookupNode_def ex_paths2 exBadSize_def)

lemma exBadSize_not_numeric: "\<not> numeric (strings_Trim ''4x'' [CHR '' '', CHR 0x0A])"
  by (simp add: numeric_def strings_Trim_def isDigit_def)

theorem size_error_is_discarded_witness:
  "os_ReadFile exNoSize (path_Join [''/a/block'', zdfsOssDataSizeFile]) = Inl ENOENT \<and>
   GetBlobSize exNoSize ''/a/block'' = (0, Some (SysErr ENOENT)) \<and>
   os_ReadFile exBadSize (path_Join [''/a/block'', zdfsOssDataSizeFile]) = Inr ''4x'' \<and>
   (GetBlobSize exBadSize ''/a/block'' = (0, Some SyntaxErr) \<or>
    GetBlobSize exBadSize ''/a/block'' = (- 1, Some RangeErr)) \<and>
   makeConfig demoDeps exNoSize ''/a'' [] = (fst exNoSizeRun, None) \<and>
   (\<exists>c ls digest. storedDescriptor demoDeps (fst exNoSizeRun) ''/a'' c \<and>
      Lowers c = ls @ [ownLower ''/a'' digest (fst (GetBlobSize exNoSize (path_Join [''/a'', ''block''])))])"
proof -
  have run: "makeConfig demoDeps exNoSize ''/a'' [] = (fst exNoSizeRun, None)"
    using exNoSizeRun_ok by (simp add: exNoSizeRun_def prod_eq_iff)
  note a = size_error_is_discarded
    [where w = exNoSize and d = "''/a/block''" and e = ENOENT and ds = demoDeps
       and wm = exNoSize and dir = "''/a''" and parent = "[]" and wm' = "fst exNoSizeRun"]
  note b = size_error_is_discarded
    [where w = exBadSize and d = "''/a/block''" and content = "''4x''"]
  from a exNoSize_read have 1: "GetBlobSize exNoSize ''/a/block'' = (0, Some (SysErr ENOENT))"
    by blast
  from b exBadSize_read exBadSize_not_numeric
  have 2: "GetBlobSize exBadSize ''/a/block'' = (0, Some SyntaxErr) \<or>
           GetBlobSize exBadSize ''/a/block'' = (- 1, Some RangeErr)"
    by blast
  from a run
  have 3: "\<exists>c ls digest. storedDescriptor demoDeps (fst exNoSizeRun) ''/a'' c \<and>
      Lowers c = ls @ [ownLower ''/a'' digest (fst (GetBlobSize exNoSize (path_Join [''/a'', ''block''])))]"
    by blast
  show ?thesis using exNoSize_read exBadSize_read run 1 2 3 by blast
qed

text \<open>
  C6, as the specification states it, fails. The layer \<open>/a\<close> of \<open>exNoSize\<close> has no
  size marker: \<open>GetBlobSize\<close> reports that, yet the descriptor-synthesis step
  succeeds and stores a descriptor whose entry for the layer has size 0.
\<close>

theorem missing_size_still_writes_descriptor_counterexample:
  "snd (GetBlobSize exNoSize ''/a/block'') = Some (SysErr ENOENT) \<and>
   snd (makeConfig demoDeps exNoSize ''/a'' []) = None \<and>
   storedDescriptor demoDeps (fst (makeConfig demoDeps exNoSize ''/a'' [])) ''/a''
     (baseDescriptor ''/a'' ''r'' ''sha256:ab'' 0 [])"
  using exNoSize_size exNoSizeRun_ok exNoSizeRun_stored by (simp add: exNoSizeRun_def)

lemma probe_error_comes_with_false:
  "snd (isOverlaybdLayer w dir) = Some e \<Longrightarrow> \<not> fst (isOverlaybdLayer w dir)"
  by (auto simp: isOverlaybdLayer_def split: if_splits prod.splits option.splits)

lemma probe_error_never_returned:
  "snd (isOverlaybdLayer w dir) = Some e \<Longrightarrow>
     PrepareOverlayBDSpec ds parentIDs snPath w ident dir = (w, False, None)"
  using probe_error_comes_with_false [of w dir e]
  by (cases "isOverlaybdLayer w dir") (simp add: PrepareOverlayBDSpec_def)

text \<open>
  C5, on the code. In \<open>exDenied\<close> the layer \<open>/a\<close> has no descriptor and its first
  marker file cannot be inspected (permission denied). The probe reports that error,
  with \<open>false\<close>. \<open>PrepareOverlayBDSpec\<close> tests the boolean before the error, so it
  returns the not-applicable outcome, \<open>false\<close> without an error: its branch that
  would return the error is never reached.
\<close>

theorem probe_error_is_swallowed:
  "isOverlaybdLayer exDenied ''/a'' = (False, Some (SysErr EACCES)) \<and>
   PrepareOverlayBDSpec demoDeps [] exSnPath exDenied ''a'' ''/a'' = (exDenied, False, None)"
proof -
  have p: "isOverlaybdLayer exDenied ''/a'' = (False, Some (SysErr EACCES))"
    by (simp add: isOverlaybdLayer_def hasOverlaybdBlobRef_def pathExists_def os_Stat_def
          lookupNode_def name_defs path_defs overlaybdConfPath_def exDenied_def)
  show ?thesis using p by (simp add: PrepareOverlayBDSpec_def)
qed

lemma exImageRef_size: "GetBlobSize exImageRef ''/a/block'' = (5, None)"
  by (simp add: GetBlobSize_def getTrimStringFromFile_def os_ReadFile_def lookupNode_def
        ex_paths2 exImageRef_def strings_Trim_def strconv_ParseUint_def isDigit_def)

lemma exImageRef_digest: "GetBlobRepoDigest exImageRef ''/a/block'' = Inr (''r'', ''sha256:ab'')"
  by (simp add: GetBlobRepoDigest_def getTrimStringFromFile_def os_ReadFile_def lookupNode_def
        ex_paths2 exImageRef_def strings_Trim_def strings_LastIndexSlash_def Let_def)

lemma exImageRefRun_eq:
  "exImageRefRun = constructSpec demoDeps exImageRef ''/a'' [] ''r'' ''sha256:ab'' 5 []"
proof -
  have pe: "pathExists exImageRef ''/a/a/image_ref'' = (False, None)"
    by (simp add: pathExists_def os_Stat_def lookupNode_def ex_paths2 exImageRef_def)
  show ?thesis
    by (simp add: exImageRefRun_def makeConfig_def block_a exImageRef_digest exImageRef_size
          ex_paths2 pe Let_def)
qed

lemma exImageRefRun_ok: "snd exImageRefRun = None"
  by (simp add: exImageRefRun_eq constructSpec_def atomicWriteOverlaybdTargetConfig_def
        demoDeps_def demoMarshal_def confPath_a clean_conf_a AtomicWriteFile_def putFile_def
        lookupNode_def parentOf_def exImageRef_def Let_def)

text \<open>
  C8, on the code. In \<open>exImageRef\<close> the layer \<open>/a\<close> has the file \<open>/a/image_ref\<close> with
  an image reference whose blob URL is \<open>https://reg.io/v2/n/blobs\<close>. The
  descriptor-synthesis step joins the layer directory to the name twice and looks for
  \<open>/a/a/image_ref\<close>, which does not exist; the descriptor it stores has the URL \<open>r\<close>
  taken from the legacy bundle.
\<close>

theorem image_ref_override_is_not_read:
  "os_ReadFile exImageRef (path_Join [''/a'', ''image_ref'']) = Inr ''reg.io/n:t'' \<and>
   constructImageBlobURL demoDeps ''reg.io/n:t'' = (''https://reg.io/v2/n/blobs'', None) \<and>
   path_Join [''/a'', path_Join [''/a'', ''image_ref'']] = ''/a/a/image_ref'' \<and>
   os_Stat exImageRef ''/a/a/image_ref'' = Inl ENOENT \<and>
   snd (makeConfig demoDeps exImageRef ''/a'' []) = None \<and>
   storedDescriptor demoDeps (fst (makeConfig demoDeps exImageRef ''/a'' [])) ''/a''
     (baseDescriptor ''/a'' ''r'' ''sha256:ab'' 5 [])"
proof -
  have rd: "os_ReadFile exImageRef (path_Join [''/a'', ''image_ref'']) = Inr ''reg.io/n:t''"
    by (simp add: os_ReadFile_def lookupNode_def ex_paths2 exImageRef_def)
  have url: "constructImageBlobURL demoDeps ''reg.io/n:t'' = (''https://reg.io/v2/n/blobs'', None)"
    by (simp add: constructImageBlobURL_def demoDeps_def demoParseNamed_def path_defs Let_def)
  have st: "os_Stat exImageRef ''/a/a/image_ref'' = Inl ENOENT"
    by (simp add: os_Stat_def lookupNode_def ex_paths2 exImageRef_def)
  have "constructSpec demoDeps exImageRef ''/a'' [] ''r'' ''sha256:ab'' 5 [] = (fst exImageRefRun, None)"
    using exImageRefRun_ok by (simp add: exImageRefRun_eq prod_eq_iff)
  from atomicWrite_stored [OF constructSpec_base [OF this]]
  have sd: "storedDescriptor demoDeps (fst exImageRefRun) ''/a''
              (baseDescriptor ''/a'' ''r'' ''sha256:ab'' 5 [])" .
  show ?thesis using rd url ref2_a st exImageRefRun_ok sd by (simp add: exImageRefRun_def)
qed

lemma exLocked_load: "loadBackingStoreConfig demoDeps exLocked ''/a'' = Inr exDesc"
  using exDesc_roundtrip
  by (simp add: loadBackingStoreConfig_def confPath_a clean_conf_a exLocked_def exWorldM_def
                os_ReadFile_def lookupNode_def demoDeps_def demoMarshal_def)

lemma exLockedRun_eq:
  "exLockedRun = (case atomicWriteOverlaybdTargetConfig demoDeps exLocked ''/a''
                         (exDesc\<lparr>RecordTracePath := []\<rparr>) of (w', e) \<Rightarrow> (w', True, e))"
proof -
  have pr: "isOverlaybdLayer exLocked ''/a'' = (True, None)"
    using load_exists [OF exLocked_load] by (simp add: isOverlaybdLayer_def)
  have pe: "pathExists exLocked (path_Join [''/a'', zdfsMetaDir]) = (True, None)"
    by (simp add: pathExists_def os_Stat_def lookupNode_def ex_paths exLocked_def exWorldM_def)
  have tp: "RecordTracePath exDesc \<noteq> []" by (simp add: exDesc_def baseDescriptor_def)
  have d: "doDir demoDeps ''/a'' [] exLocked =
             atomicWriteOverlaybdTargetConfig demoDeps exLocked ''/a'' (exDesc\<lparr>RecordTracePath := []\<rparr>)"
    using tp by (auto simp: doDir_valid [OF exLocked_load] pe updateSpec_def exLocked_load)
  show ?thesis
    by (simp add: exLockedRun_def PrepareOverlayBDSpec_def pr walk_def walkLoop_walkList
          exSnPath_def d)
qed

text \<open>
  C7, on the code. In \<open>exLocked\<close> the package mutex \<open>pouchDirLock\<close> is held by someone
  else. \<open>PrepareOverlayBDSpec\<close> still runs to the end and rewrites the descriptor
  of \<open>/a\<close>, and the mutex is as it was: the procedure neither waits for the mutex nor
  takes it.
\<close>

theorem prepare_ignores_the_lock:
  "pouchDirLock exLocked \<and>
   snd exLockedRun = (True, None) \<and>
   pouchDirLock (fst exLockedRun) \<and>
   wroteDescriptor demoDeps exLocked (fst exLockedRun) ''/a'' (exDesc\<lparr>RecordTracePath := []\<rparr>)"
proof -
  let ?run = "atomicWriteOverlaybdTargetConfig demoDeps exLocked ''/a''
                (exDesc\<lparr>RecordTracePath := []\<rparr>)"
  have ok: "snd ?run = None"
    by (simp add: atomicWriteOverlaybdTargetConfig_def demoDeps_def demoMarshal_def ex_paths
          AtomicWriteFile_def putFile_def lookupNode_def parentOf_def exLocked_def exWorldM_def
          Let_def)
  then have run: "?run = (fst ?run, None)" by (simp add: prod_eq_iff)
  have f: "fst exLockedRun = fst ?run" and sn: "snd exLockedRun = (True, None)"
    using ok by (auto simp: exLockedRun_eq split: prod.splits)
  have w: "wroteDescriptor demoDeps exLocked (fst ?run) ''/a'' (exDesc\<lparr>RecordTracePath := []\<rparr>)"
    by (rule atomicWrite_wrote [OF run])
  then have l: "pouchDirLock (fst ?run) = pouchDirLock exLocked"
    by (auto simp: wroteDescriptor_def split: option.splits)
  have h: "pouchDirLock exLocked" by (simp add: exLocked_def)
  show ?thesis using h sn w l by (simp add: f)
qed

end
